theory Spec2Isabelle
  imports Main "HOL-Library.AList"
begin

section \<open>Capability model (drivers/capabilities.ts, types.ts)\<close>

text \<open>
  \<^verbatim>\<open>TreeStructureType\<close> is a union of six string literals and \<^verbatim>\<open>DriverCapabilities\<close>
  an interface of eighteen booleans and the tree-structure tag.
\<close>

datatype TreeStructureType =
    SchemaTableColumn
  | DatabaseTableColumn
  | DatabaseCollection
  | BucketMeasurement
  | MetricLabel
  | Keyspace

record DriverCapabilities =
  supportsSchemas :: bool
  supportsTables :: bool
  supportsViews :: bool
  supportsCollections :: bool
  supportsMeasurements :: bool
  supportsSQL :: bool
  supportsNoSQLQueries :: bool
  supportsFlux :: bool
  supportsPromQL :: bool
  supportsInsert :: bool
  supportsUpdate :: bool
  supportsDelete :: bool
  supportsTruncate :: bool
  supportsDDL :: bool
  supportsTransactions :: bool
  supportsPrimaryKeys :: bool
  supportsExport :: bool
  supportsRowEditing :: bool
  treeStructure :: TreeStructureType

text \<open>
  An optional boolean parameter or field (\<^verbatim>\<open>connectionReadOnly?: boolean\<close>,
  \<^verbatim>\<open>readOnly?: boolean\<close>) is a \<open>bool option\<close>; \<open>None\<close> is \<^verbatim>\<open>undefined\<close>. In a
  condition only \<open>Some True\<close> is truthy.
\<close>

definition truthy :: "bool option \<Rightarrow> bool" where
  "truthy b = (case b of None \<Rightarrow> False | Some v \<Rightarrow> v)"

definition isWriteAllowed :: "DriverCapabilities \<Rightarrow> bool option \<Rightarrow> bool" where
  "isWriteAllowed capabilities connectionReadOnly =
     (if truthy connectionReadOnly then False
      else supportsInsert capabilities \<or> supportsUpdate capabilities \<or> supportsDelete capabilities)"

definition getEffectiveCapabilities :: "DriverCapabilities \<Rightarrow> bool option \<Rightarrow> DriverCapabilities" where
  "getEffectiveCapabilities capabilities connectionReadOnly =
     (if \<not> truthy connectionReadOnly then capabilities
      else capabilities\<lparr>
        supportsInsert := False,
        supportsUpdate := False,
        supportsDelete := False,
        supportsTruncate := False,
        supportsDDL := False,
        supportsRowEditing := False\<rparr>)"


section \<open>Write-query detection (baseDriver.ts, replicaRouter.ts)\<close>

text \<open>
  Query text is a \<open>string\<close>; a \<open>char\<close> stands for the UTF-16 code unit of the same
  number, so the model covers the texts whose code units are below 256 (Latin-1).
  \<^verbatim>\<open>String.prototype.trim\<close> removes white space and line terminators from both ends;
  below 256 these are the code units 9 to 13, 32 and 160.
\<close>

definition isWhiteSpace :: "char \<Rightarrow> bool" where
  "isWhiteSpace c =
     (c = CHR 0x09 \<or> c = CHR 0x0A \<or> c = CHR 0x0B \<or> c = CHR 0x0C \<or> c = CHR 0x0D
      \<or> c = CHR 0x20 \<or> c = CHR 0xA0)"

definition trim :: "string \<Rightarrow> string" where
  "trim s = rev (dropWhile isWhiteSpace (rev (dropWhile isWhiteSpace s)))"

text \<open>
  \<^verbatim>\<open>toLowerCase\<close> on Latin-1: the upper-case letters are 65 to 90 and 192 to 222
  without the multiplication sign 215; each has its lower-case form 32 further on.
\<close>

definition toLower_char :: "char \<Rightarrow> char" where
  "toLower_char c =
     (let n = (of_char c :: nat) in
      if (65 \<le> n \<and> n \<le> 90) \<or> (192 \<le> n \<and> n \<le> 222 \<and> n \<noteq> 215)
      then char_of (n + 32) else c)"

definition toLowerCase :: "string \<Rightarrow> string" where
  "toLowerCase s = map toLower_char s"

text \<open>
  The regular expression \<^verbatim>\<open>/^(insert|update|delete|drop|alter|create|truncate|grant|revoke)/i\<close>:
  under the \<^verbatim>\<open>i\<close> flag two code units match when their canonical forms agree. The
  canonical form is the upper-case code unit, except that a result of more than one
  code unit (sharp s) leaves the unit as it is; \<open>canonicalize\<close> returns the code unit as
  a number because two of them (for 255 and 181) lie beyond Latin-1. The anchor
  \<^verbatim>\<open>^\<close> (no \<^verbatim>\<open>m\<close> flag) lets a match begin at position 0 only, and \<^verbatim>\<open>test\<close> holds when
  some alternative matches there.
\<close>

definition canonicalize :: "char \<Rightarrow> nat" where
  "canonicalize c =
     (let n = (of_char c :: nat) in
      if 97 \<le> n \<and> n \<le> 122 then n - 32
      else if 224 \<le> n \<and> n \<le> 254 \<and> n \<noteq> 247 then n - 32
      else if n = 255 then 376
      else if n = 181 then 924
      else n)"

fun matches_ci :: "string \<Rightarrow> string \<Rightarrow> bool" where
  "matches_ci [] s = True"
| "matches_ci (p # ps) [] = False"
| "matches_ci (p # ps) (c # cs) = (canonicalize p = canonicalize c \<and> matches_ci ps cs)"

definition write_prefixes :: "string list" where
  "write_prefixes =
     [''insert'', ''update'', ''delete'', ''drop'', ''alter'', ''create'',
      ''truncate'', ''grant'', ''revoke'']"

definition regex_test :: "string \<Rightarrow> bool" where
  "regex_test s = list_ex (\<lambda>p. matches_ci p s) write_prefixes"

definition BaseDbDriver_isWriteQuery :: "string \<Rightarrow> bool" where
  "BaseDbDriver_isWriteQuery sql =
     (let normalized = toLowerCase (trim sql) in regex_test normalized)"

definition ReplicaRouter_isWriteQuery :: "string \<Rightarrow> bool" where
  "ReplicaRouter_isWriteQuery sql =
     (let normalized = toLowerCase (trim sql) in regex_test normalized)"

text \<open>
  The classifier as the specification words it: the trimmed text begins, letter case
  aside, with one of the nine prefixes. A text begins with the (lower-case) prefix
  \<open>p\<close> when it is at least as long and its first \<open>length p\<close> characters, lower-cased,
  are \<open>p\<close>.
\<close>

definition begins_ci :: "string \<Rightarrow> string \<Rightarrow> bool" where
  "begins_ci p t = (length p \<le> length t \<and> map toLower_char (take (length p) t) = p)"

definition spec_isWriteQuery :: "string \<Rightarrow> bool" where
  "spec_isWriteQuery s = list_ex (\<lambda>p. begins_ci p (trim s)) write_prefixes"

definition lower_ascii :: "char \<Rightarrow> bool" where
  "lower_ascii c = (97 \<le> (of_char c :: nat) \<and> (of_char c :: nat) \<le> 122)"


section \<open>Errors, configuration and results (types.ts)\<close>

text \<open>
  Every failure of the source is a thrown \<^verbatim>\<open>Error\<close> told apart by its message; the
  model has one constructor per message. \<open>ReadOnlyViolation\<close> is
  \<^verbatim>\<open>'Write queries are not allowed in read-only mode.'\<close>, \<open>NotConnected\<close> the
  \<^verbatim>\<open>'Not connected to ...'\<close> of a driver without its client handle,
  \<open>TypeError\<close> the runtime's error on a method call on \<^verbatim>\<open>undefined\<close>, and
  \<open>BackendError\<close> whatever the wrapped protocol client throws.
\<close>

datatype error =
    ReadOnlyViolation
  | NotConnected
  | BackendError string
  | MongoFormatError
  | UnknownDriverType string string
  | ConnectionNotFound string
  | WriteReplicaNotConnected
  | TypeError

datatype LoadBalancing = RoundRobin | Random | FirstAvailable | Unrecognized

record ReadReplicaHost =
  rhost :: string
  rport :: nat
  weight :: "nat option"

record ReplicaConfig =
  enabled :: bool
  writeHost :: string
  writePort :: nat
  readHosts :: "ReadReplicaHost list"
  loadBalancing :: LoadBalancing

text \<open>
  \<open>Unrecognized\<close> stands for a \<^verbatim>\<open>loadBalancing\<close> value outside the declared union,
  which the \<^verbatim>\<open>default:\<close> branch of \<^verbatim>\<open>getReadDriver\<close> handles. The fields
  \<^verbatim>\<open>id\<close>, \<^verbatim>\<open>name\<close> and \<^verbatim>\<open>type\<close> of \<^verbatim>\<open>ConnectionConfig\<close> are \<open>cid\<close>, \<open>cname\<close>
  and \<open>ctype\<close>; \<open>options\<close> is the open map of driver-specific fields.
\<close>

record ConnectionConfig =
  cid :: string
  cname :: string
  ctype :: string
  host :: "string option"
  port :: "nat option"
  database :: "string option"
  username :: "string option"
  filepath :: "string option"
  readOnly :: "bool option"
  replicaConfig :: "ReplicaConfig option"
  options :: "(string \<times> string) list"

record QueryResult =
  columns :: "string list"
  rows :: "(string \<times> string) list list"
  rowCount :: nat
  affectedRows :: "nat option"


section \<open>Concrete drivers: executeQuery (drivers/*.ts)\<close>

text \<open>
  A driver object: the fields of \<^verbatim>\<open>BaseDbDriver\<close> and, for its subclass, \<open>handle\<close>,
  which says that the field \<^verbatim>\<open>executeQuery\<close> tests first is non-null: \<^verbatim>\<open>pool\<close>
  (postgres, mysql, mssql), \<^verbatim>\<open>db\<close> (sqlite, mongodb), \<^verbatim>\<open>queryApi\<close> (influxdb).
  \<open>backendCalls\<close> records every query the driver asks the wrapped client to run
  (\<^verbatim>\<open>pool.query\<close>, \<^verbatim>\<open>request.query\<close>, \<^verbatim>\<open>db.prepare\<close> or \<^verbatim>\<open>db.run\<close>,
  \<^verbatim>\<open>collection.find\<close> or \<^verbatim>\<open>aggregate\<close>, \<^verbatim>\<open>queryApi.queryRows\<close>, the HTTP
  fetch), oldest first: it is the observation a fake backend makes.
\<close>

datatype DriverKind = Postgres | MySql | Sqlite | Mssql | Mongo | InfluxDb | Prometheus

record Driver =
  kind :: DriverKind
  config :: ConnectionConfig
  password :: string
  connected :: bool
  handle :: bool
  backendCalls :: "(string \<times> string list option) list"

text \<open>
  The wrapped client is outside the repository: \<open>runQuery\<close> is its answer to a
  query (with the driver's mapping to \<^verbatim>\<open>QueryResult\<close> applied). \<open>parseJson\<close> is
  what the mongodb driver gets from a text before it runs a query: \<open>Malformed\<close>
  when \<^verbatim>\<open>JSON.parse\<close> throws; \<open>NoCollection\<close> when the text parses but no
  collection handle comes of it (the value is \<^verbatim>\<open>null\<close>, so that reading
  \<^verbatim>\<open>parsed.collection\<close> throws, or \<^verbatim>\<open>db.collection\<close> refuses the name);
  \<open>Request c\<close> when the handle of collection \<open>c\<close> is obtained.
\<close>

datatype MongoRequest = Malformed | NoCollection | Request string

record Backend =
  runQuery :: "string \<Rightarrow> string list option \<Rightarrow> error + QueryResult"
  parseJson :: "string \<Rightarrow> MongoRequest"

definition validateQuery :: "Driver \<Rightarrow> string \<Rightarrow> error option" where
  "validateQuery d sql =
     (if truthy (readOnly (config d)) \<and> BaseDbDriver_isWriteQuery sql
      then Some ReadOnlyViolation else None)"

definition dispatch ::
  "Backend \<Rightarrow> Driver \<Rightarrow> string \<Rightarrow> string list option \<Rightarrow> (error + QueryResult) \<times> Driver" where
  "dispatch be d sql params =
     (runQuery be sql params, d\<lparr>backendCalls := backendCalls d @ [(sql, params)]\<rparr>)"

definition PostgresDriver_executeQuery ::
  "Backend \<Rightarrow> Driver \<Rightarrow> string \<Rightarrow> string list option \<Rightarrow> (error + QueryResult) \<times> Driver" where
  "PostgresDriver_executeQuery be d sql params =
     (if \<not> handle d then (Inl NotConnected, d)
      else case validateQuery d sql of
             Some e \<Rightarrow> (Inl e, d)
           | None \<Rightarrow> dispatch be d sql params)"

definition MySqlDriver_executeQuery ::
  "Backend \<Rightarrow> Driver \<Rightarrow> string \<Rightarrow> string list option \<Rightarrow> (error + QueryResult) \<times> Driver" where
  "MySqlDriver_executeQuery be d sql params =
     (if \<not> handle d then (Inl NotConnected, d)
      else case validateQuery d sql of
             Some e \<Rightarrow> (Inl e, d)
           | None \<Rightarrow> dispatch be d sql params)"

text \<open>
  sqlite runs a text that begins with select or pragma through \<^verbatim>\<open>prepare\<close> and any
  other through \<^verbatim>\<open>run\<close>; mssql sends the text with its named parameters renumbered
  when parameters are given. Either way the text goes to the client after the guard.
\<close>

definition SqliteDriver_executeQuery ::
  "Backend \<Rightarrow> Driver \<Rightarrow> string \<Rightarrow> string list option \<Rightarrow> (error + QueryResult) \<times> Driver" where
  "SqliteDriver_executeQuery be d sql params =
     (if \<not> handle d then (Inl NotConnected, d)
      else case validateQuery d sql of
             Some e \<Rightarrow> (Inl e, d)
           | None \<Rightarrow> dispatch be d sql params)"

definition MssqlDriver_executeQuery ::
  "Backend \<Rightarrow> Driver \<Rightarrow> string \<Rightarrow> string list option \<Rightarrow> (error + QueryResult) \<times> Driver" where
  "MssqlDriver_executeQuery be d sqlQuery params =
     (if \<not> handle d then (Inl NotConnected, d)
      else case validateQuery d sqlQuery of
             Some e \<Rightarrow> (Inl e, d)
           | None \<Rightarrow> dispatch be d sqlQuery params)"

text \<open>
  mongodb parses the text as JSON and takes the collection handle inside a \<^verbatim>\<open>try\<close>
  whose \<^verbatim>\<open>catch\<close> replaces any error, the client's included, by the format
  error; the query runs only once the handle is there.
\<close>

definition MongoDriver_executeQuery ::
  "Backend \<Rightarrow> Driver \<Rightarrow> string \<Rightarrow> string list option \<Rightarrow> (error + QueryResult) \<times> Driver" where
  "MongoDriver_executeQuery be d sqlQuery params =
     (if \<not> handle d then (Inl NotConnected, d)
      else case validateQuery d sqlQuery of
             Some e \<Rightarrow> (Inl e, d)
           | None \<Rightarrow>
               (case parseJson be sqlQuery of
                  Malformed \<Rightarrow> (Inl MongoFormatError, d)
                | NoCollection \<Rightarrow> (Inl MongoFormatError, d)
                | Request c \<Rightarrow>
                    (case dispatch be d sqlQuery params of
                       (Inl e, d') \<Rightarrow> (Inl MongoFormatError, d')
                     | (Inr r, d') \<Rightarrow> (Inr r, d'))))"

text \<open>
  influxdb and prometheus do not call \<^verbatim>\<open>validateQuery\<close>; the influxdb source says
  so in a comment (Flux queries are read-only through the query API). prometheus
  tests its \<^verbatim>\<open>connected\<close> flag instead of a handle.
\<close>

definition InfluxDbDriver_executeQuery ::
  "Backend \<Rightarrow> Driver \<Rightarrow> string \<Rightarrow> string list option \<Rightarrow> (error + QueryResult) \<times> Driver" where
  "InfluxDbDriver_executeQuery be d fluxQuery params =
     (if \<not> handle d then (Inl NotConnected, d)
      else dispatch be d fluxQuery params)"

definition PrometheusDriver_executeQuery ::
  "Backend \<Rightarrow> Driver \<Rightarrow> string \<Rightarrow> string list option \<Rightarrow> (error + QueryResult) \<times> Driver" where
  "PrometheusDriver_executeQuery be d promQuery params =
     (if \<not> connected d then (Inl NotConnected, d)
      else dispatch be d promQuery params)"

text \<open>Method dispatch on the object's class.\<close>

definition executeQuery ::
  "Backend \<Rightarrow> Driver \<Rightarrow> string \<Rightarrow> string list option \<Rightarrow> (error + QueryResult) \<times> Driver" where
  "executeQuery be d sql params =
     (case kind d of
        Postgres \<Rightarrow> PostgresDriver_executeQuery be d sql params
      | MySql \<Rightarrow> MySqlDriver_executeQuery be d sql params
      | Sqlite \<Rightarrow> SqliteDriver_executeQuery be d sql params
      | Mssql \<Rightarrow> MssqlDriver_executeQuery be d sql params
      | Mongo \<Rightarrow> MongoDriver_executeQuery be d sql params
      | InfluxDb \<Rightarrow> InfluxDbDriver_executeQuery be d sql params
      | Prometheus \<Rightarrow> PrometheusDriver_executeQuery be d sql params)"

definition validating :: "DriverKind \<Rightarrow> bool" where
  "validating k = (k = Postgres \<or> k = MySql \<or> k = Sqlite \<or> k = Mssql \<or> k = Mongo)"

text \<open>An object as its constructor leaves it, and test fixtures built from it.\<close>

definition Driver_new :: "DriverKind \<Rightarrow> ConnectionConfig \<Rightarrow> string \<Rightarrow> Driver" where
  "Driver_new k cfg pw =
     \<lparr>kind = k, config = cfg, password = pw, connected = False, handle = False,
      backendCalls = []\<rparr>"

definition empty_result :: QueryResult where
  "empty_result = \<lparr>columns = [], rows = [], rowCount = 0, affectedRows = None\<rparr>"

definition fake_backend :: Backend where
  "fake_backend = \<lparr>runQuery = (\<lambda>q ps. Inr empty_result), parseJson = (\<lambda>q. Malformed)\<rparr>"

text \<open>
  The prometheus driver seeds its result with three column names; a backend that
  answers an instant query with no series.
\<close>

definition no_series :: QueryResult where
  "no_series =
     \<lparr>columns = [''__name__'', ''value'', ''timestamp''], rows = [], rowCount = 0,
      affectedRows = None\<rparr>"

definition fake_prometheus :: Backend where
  "fake_prometheus = \<lparr>runQuery = (\<lambda>q ps. Inr no_series), parseJson = (\<lambda>q. Malformed)\<rparr>"

definition readonly_config :: "string \<Rightarrow> ConnectionConfig" where
  "readonly_config t =
     \<lparr>cid = ''c1'', cname = ''primary'', ctype = t, host = Some ''db.local'', port = None,
      database = Some ''app'', username = None, filepath = None, readOnly = Some True,
      replicaConfig = None, options = []\<rparr>"

definition open_driver :: "DriverKind \<Rightarrow> string \<Rightarrow> Driver" where
  "open_driver k t = (Driver_new k (readonly_config t) [])\<lparr>connected := True, handle := True\<rparr>"


section \<open>The driver interface and the object store (types.ts)\<close>

text \<open>
  The registry and the router are written against the interface \<^verbatim>\<open>DbDriver\<close>, so
  they are modelled for any implementation: \<open>'d\<close> is the state of a driver object
  and a \<open>DbDriver\<close> record is its method table. \<^verbatim>\<open>connect\<close> and \<^verbatim>\<open>disconnect\<close> are
  \<^verbatim>\<open>async\<close> methods: they return the error their promise rejects with, if any, and the
  state they leave the object in; a method changes its own object only.
  \<^verbatim>\<open>isConnected\<close> reads the object.
\<close>

record 'd DbDriver =
  connect :: "'d \<Rightarrow> error option \<times> 'd"
  disconnect :: "'d \<Rightarrow> error option \<times> 'd"
  isConnected :: "'d \<Rightarrow> bool"

text \<open>
  Objects live in a store and are named by reference (a number), since the registry's
  map, the router's fields and the callers share them. \<open>fresh\<close> is the next unused
  reference. \<open>calls\<close> logs each \<^verbatim>\<open>connect\<close> and \<^verbatim>\<open>disconnect\<close> invoked on a
  driver, oldest first, and \<open>console\<close> what \<^verbatim>\<open>console.error\<close> was given. An
  \<^verbatim>\<open>await\<close> is modelled as running the awaited call to its end; calls that overlap
  in time are not modelled.
\<close>

datatype Method = Connect | Disconnect

record 'd World =
  heap :: "nat \<Rightarrow> 'd"
  fresh :: nat
  calls :: "(nat \<times> Method) list"
  console :: "error list"

definition alloc :: "'d World \<Rightarrow> 'd \<Rightarrow> nat \<times> 'd World" where
  "alloc w d = (fresh w, w\<lparr>heap := (heap w)(fresh w := d), fresh := Suc (fresh w)\<rparr>)"

definition call_connect :: "'d DbDriver \<Rightarrow> nat \<Rightarrow> 'd World \<Rightarrow> error option \<times> 'd World" where
  "call_connect ops r w =
     (case connect ops (heap w r) of
        (res, d') \<Rightarrow> (res, w\<lparr>heap := (heap w)(r := d'), calls := calls w @ [(r, Connect)]\<rparr>))"

definition call_disconnect :: "'d DbDriver \<Rightarrow> nat \<Rightarrow> 'd World \<Rightarrow> error option \<times> 'd World" where
  "call_disconnect ops r w =
     (case disconnect ops (heap w r) of
        (res, d') \<Rightarrow> (res, w\<lparr>heap := (heap w)(r := d'), calls := calls w @ [(r, Disconnect)]\<rparr>))"


section \<open>Driver factory (drivers/driverFactory.ts)\<close>

text \<open>
  The static registry maps a type id to its registration; a JavaScript \<^verbatim>\<open>Map\<close> is
  an association list in insertion order. The metadata of a registration is reduced to
  its id, display name and capabilities.
\<close>

record DriverMetadata =
  mid :: string
  displayName :: string
  capabilities :: DriverCapabilities

record 'd DriverRegistration =
  metadata :: DriverMetadata
  constructor :: "ConnectionConfig \<Rightarrow> string \<Rightarrow> 'd"

fun join :: "string \<Rightarrow> string list \<Rightarrow> string" where
  "join sep [] = []"
| "join sep [x] = x"
| "join sep (x # y # ys) = x @ sep @ join sep (y # ys)"

definition DriverFactory_register ::
  "(string \<times> 'd DriverRegistration) list \<Rightarrow> DriverMetadata \<Rightarrow> (ConnectionConfig \<Rightarrow> string \<Rightarrow> 'd)
     \<Rightarrow> (string \<times> 'd DriverRegistration) list" where
  "DriverFactory_register registry md ctor =
     AList.update (mid md) \<lparr>metadata = md, constructor = ctor\<rparr> registry"

definition DriverFactory_create ::
  "(string \<times> 'd DriverRegistration) list \<Rightarrow> string \<Rightarrow> ConnectionConfig \<Rightarrow> string \<Rightarrow> error + 'd" where
  "DriverFactory_create registry t cfg pw =
     (case map_of registry t of
        None \<Rightarrow>
          (let available = join '', '' (map fst registry) in
           Inl (UnknownDriverType t (if available = [] then ''none registered'' else available)))
      | Some registration \<Rightarrow> Inr (constructor registration cfg pw))"


section \<open>Connection lifecycle registry (drivers/driverRegistry.ts)\<close>

text \<open>
  The connection store (storage/connectionStore.ts) keeps the configurations by id
  and the passwords in secret storage under a key made from the id. The registry's
  \<^verbatim>\<open>drivers\<close> map holds references, in insertion order.
\<close>

record ConnectionStore =
  connections :: "(string \<times> ConnectionConfig) list"
  secrets :: "(string \<times> string) list"

definition getConnection :: "ConnectionStore \<Rightarrow> string \<Rightarrow> ConnectionConfig option" where
  "getConnection store i = map_of (connections store) i"

definition getPassword :: "ConnectionStore \<Rightarrow> string \<Rightarrow> string option" where
  "getPassword store connectionId =
     map_of (secrets store) (''database-explorer.password.'' @ connectionId)"

record DriverRegistry =
  drivers :: "(string \<times> nat) list"
  connectionStore :: ConnectionStore

definition getDriver :: "DriverRegistry \<Rightarrow> string \<Rightarrow> nat option" where
  "getDriver reg connectionId = map_of (drivers reg) connectionId"

definition DriverRegistry_isConnected ::
  "'d DbDriver \<Rightarrow> DriverRegistry \<Rightarrow> 'd World \<Rightarrow> string \<Rightarrow> bool" where
  "DriverRegistry_isConnected ops reg w connectionId =
     (case map_of (drivers reg) connectionId of
        None \<Rightarrow> False
      | Some r \<Rightarrow> isConnected ops (heap w r))"

definition DriverRegistry_connect ::
  "'d DbDriver \<Rightarrow> (string \<times> 'd DriverRegistration) list \<Rightarrow> DriverRegistry \<Rightarrow> 'd World \<Rightarrow> string
     \<Rightarrow> (error + nat) \<times> DriverRegistry \<times> 'd World" where
  "DriverRegistry_connect ops factory reg w connectionId =
     (let existing = map_of (drivers reg) connectionId;
          fresh_connect =
            (case getConnection (connectionStore reg) connectionId of
               None \<Rightarrow> (Inl (ConnectionNotFound connectionId), reg, w)
             | Some cfg \<Rightarrow>
                 (let pw = (case getPassword (connectionStore reg) connectionId of
                              None \<Rightarrow> [] | Some p \<Rightarrow> p)
                  in case DriverFactory_create factory (ctype cfg) cfg pw of
                       Inl e \<Rightarrow> (Inl e, reg, w)
                     | Inr d \<Rightarrow>
                         (case alloc w d of
                            (r, w1) \<Rightarrow>
                              (case call_connect ops r w1 of
                                 (Some e, w2) \<Rightarrow> (Inl e, reg, w2)
                               | (None, w2) \<Rightarrow>
                                   (Inr r,
                                    reg\<lparr>drivers := AList.update connectionId r (drivers reg)\<rparr>,
                                    w2)))))
      in case existing of
           None \<Rightarrow> fresh_connect
         | Some r \<Rightarrow> if isConnected ops (heap w r) then (Inr r, reg, w) else fresh_connect)"

definition DriverRegistry_disconnect ::
  "'d DbDriver \<Rightarrow> DriverRegistry \<Rightarrow> 'd World \<Rightarrow> string \<Rightarrow> error option \<times> DriverRegistry \<times> 'd World" where
  "DriverRegistry_disconnect ops reg w connectionId =
     (case map_of (drivers reg) connectionId of
        None \<Rightarrow> (None, reg, w)
      | Some r \<Rightarrow>
          (case call_disconnect ops r w of
             (Some e, w1) \<Rightarrow> (Some e, reg, w1)
           | (None, w1) \<Rightarrow>
               (None, reg\<lparr>drivers := AList.delete connectionId (drivers reg)\<rparr>, w1)))"

text \<open>
  \<^verbatim>\<open>disconnectAll\<close> calls \<^verbatim>\<open>disconnect\<close> on every cached driver, each promise with a
  \<^verbatim>\<open>catch\<close> handler that writes the error to the console, waits for all of them and
  clears the map.
\<close>

fun disconnect_each :: "'d DbDriver \<Rightarrow> nat list \<Rightarrow> 'd World \<Rightarrow> 'd World" where
  "disconnect_each ops [] w = w"
| "disconnect_each ops (r # rs) w =
     (case call_disconnect ops r w of
        (Some e, w1) \<Rightarrow> disconnect_each ops rs (w1\<lparr>console := console w1 @ [e]\<rparr>)
      | (None, w1) \<Rightarrow> disconnect_each ops rs w1)"

definition DriverRegistry_disconnectAll ::
  "'d DbDriver \<Rightarrow> DriverRegistry \<Rightarrow> 'd World \<Rightarrow> error option \<times> DriverRegistry \<times> 'd World" where
  "DriverRegistry_disconnectAll ops reg w =
     (let w1 = disconnect_each ops (map snd (drivers reg)) w
      in (None, reg\<lparr>drivers := []\<rparr>, w1))"


section \<open>Replica router (networking/replicaRouter.ts)\<close>

record ReplicaRouter =
  writeDriver :: "nat option"
  readDrivers :: "nat list"
  currentReadIndex :: nat
  rconfig :: ReplicaConfig
  baseConfig :: ConnectionConfig
  rpassword :: string

definition ReplicaRouter_new :: "ReplicaConfig \<Rightarrow> ConnectionConfig \<Rightarrow> string \<Rightarrow> ReplicaRouter" where
  "ReplicaRouter_new cfg base pw =
     \<lparr>writeDriver = None, readDrivers = [], currentReadIndex = 0,
      rconfig = cfg, baseConfig = base, rpassword = pw\<rparr>"

text \<open>
  \<open>withEndpoint\<close> is the object spread
  \<^verbatim>\<open>{...this.baseConfig, host: h, port: p}\<close>. The loop over
  \<^verbatim>\<open>config.readHosts\<close> creates a driver, connects it, then pushes it.
\<close>

definition withEndpoint :: "ConnectionConfig \<Rightarrow> string \<Rightarrow> nat \<Rightarrow> ConnectionConfig" where
  "withEndpoint base h p = base\<lparr>host := Some h, port := Some p\<rparr>"

fun connect_reads ::
  "'d DbDriver \<Rightarrow> (string \<times> 'd DriverRegistration) list \<Rightarrow> ReadReplicaHost list \<Rightarrow> ReplicaRouter
     \<Rightarrow> 'd World \<Rightarrow> error option \<times> ReplicaRouter \<times> 'd World" where
  "connect_reads ops factory [] rt w = (None, rt, w)"
| "connect_reads ops factory (readHost # hs) rt w =
     (case DriverFactory_create factory (ctype (baseConfig rt))
             (withEndpoint (baseConfig rt) (rhost readHost) (rport readHost))
             (rpassword rt) of
        Inl e \<Rightarrow> (Some e, rt, w)
      | Inr d \<Rightarrow>
          (case alloc w d of
             (r, w1) \<Rightarrow>
               (case call_connect ops r w1 of
                  (Some e, w2) \<Rightarrow> (Some e, rt, w2)
                | (None, w2) \<Rightarrow>
                    connect_reads ops factory hs (rt\<lparr>readDrivers := readDrivers rt @ [r]\<rparr>) w2)))"

definition ReplicaRouter_connect ::
  "'d DbDriver \<Rightarrow> (string \<times> 'd DriverRegistration) list \<Rightarrow> ReplicaRouter \<Rightarrow> 'd World
     \<Rightarrow> error option \<times> ReplicaRouter \<times> 'd World" where
  "ReplicaRouter_connect ops factory rt w =
     (case DriverFactory_create factory (ctype (baseConfig rt))
             (withEndpoint (baseConfig rt) (writeHost (rconfig rt)) (writePort (rconfig rt)))
             (rpassword rt) of
        Inl e \<Rightarrow> (Some e, rt, w)
      | Inr d \<Rightarrow>
          (case alloc w d of
             (r, w1) \<Rightarrow>
               (case call_connect ops r w1 of
                  (Some e, w2) \<Rightarrow> (Some e, rt\<lparr>writeDriver := Some r\<rparr>, w2)
                | (None, w2) \<Rightarrow>
                    connect_reads ops factory (readHosts (rconfig rt))
                      (rt\<lparr>writeDriver := Some r\<rparr>) w2)))"

fun disconnect_reads :: "'d DbDriver \<Rightarrow> nat list \<Rightarrow> 'd World \<Rightarrow> error option \<times> 'd World" where
  "disconnect_reads ops [] w = (None, w)"
| "disconnect_reads ops (r # rs) w =
     (case call_disconnect ops r w of
        (Some e, w1) \<Rightarrow> (Some e, w1)
      | (None, w1) \<Rightarrow> disconnect_reads ops rs w1)"

definition ReplicaRouter_disconnect ::
  "'d DbDriver \<Rightarrow> ReplicaRouter \<Rightarrow> 'd World \<Rightarrow> error option \<times> ReplicaRouter \<times> 'd World" where
  "ReplicaRouter_disconnect ops rt w =
     (case (case writeDriver rt of
              None \<Rightarrow> (None, rt, w)
            | Some wd \<Rightarrow>
                (case call_disconnect ops wd w of
                   (Some e, w1) \<Rightarrow> (Some e, rt, w1)
                 | (None, w1) \<Rightarrow> (None, rt\<lparr>writeDriver := None\<rparr>, w1))) of
        (Some e, rt1, w1) \<Rightarrow> (Some e, rt1, w1)
      | (None, rt1, w1) \<Rightarrow>
          (case disconnect_reads ops (readDrivers rt1) w1 of
             (Some e, w2) \<Rightarrow> (Some e, rt1, w2)
           | (None, w2) \<Rightarrow> (None, rt1\<lparr>readDrivers := []\<rparr>, w2)))"

definition getWriteDriver :: "ReplicaRouter \<Rightarrow> error + nat" where
  "getWriteDriver rt =
     (case writeDriver rt of None \<Rightarrow> Inl WriteReplicaNotConnected | Some d \<Rightarrow> Inr d)"

text \<open>
  An array read out of range gives \<^verbatim>\<open>undefined\<close>, here \<open>None\<close>; the later call
  \<^verbatim>\<open>driver.isConnected()\<close> on it throws a \<^verbatim>\<open>TypeError\<close>. \<open>rnd\<close> is the value of
  \<^verbatim>\<open>Math.floor(Math.random() * this.readDrivers.length)\<close> for this call, a number
  below the length.
\<close>

definition at_index :: "'a list \<Rightarrow> nat \<Rightarrow> 'a option" where
  "at_index xs i = (if i < length xs then Some (xs ! i) else None)"

definition getReadDriver ::
  "'d DbDriver \<Rightarrow> nat \<Rightarrow> ReplicaRouter \<Rightarrow> 'd World \<Rightarrow> (error + nat) \<times> ReplicaRouter" where
  "getReadDriver ops rnd rt w =
     (if length (readDrivers rt) = 0 then (getWriteDriver rt, rt)
      else
        (case (case loadBalancing (rconfig rt) of
                 RoundRobin \<Rightarrow>
                   (at_index (readDrivers rt) (currentReadIndex rt),
                    rt\<lparr>currentReadIndex :=
                         (currentReadIndex rt + 1) mod length (readDrivers rt)\<rparr>)
               | Random \<Rightarrow> (at_index (readDrivers rt) rnd, rt)
               | FirstAvailable \<Rightarrow>
                   ((case find (\<lambda>d. isConnected ops (heap w d)) (readDrivers rt) of
                       Some d \<Rightarrow> Some d
                     | None \<Rightarrow> at_index (readDrivers rt) 0), rt)
               | Unrecognized \<Rightarrow> (at_index (readDrivers rt) 0, rt)) of
           (None, rt1) \<Rightarrow> (Inl TypeError, rt1)
         | (Some driver, rt1) \<Rightarrow>
             if \<not> isConnected ops (heap w driver) then (getWriteDriver rt1, rt1)
             else (Inr driver, rt1)))"

text \<open>Consecutive calls of \<^verbatim>\<open>getReadDriver\<close>, with the value each call returned.\<close>

fun getReadDriver_times ::
  "nat \<Rightarrow> 'd DbDriver \<Rightarrow> nat \<Rightarrow> ReplicaRouter \<Rightarrow> 'd World \<Rightarrow> (error + nat) list \<times> ReplicaRouter" where
  "getReadDriver_times 0 ops rnd rt w = ([], rt)"
| "getReadDriver_times (Suc n) ops rnd rt w =
     (case getReadDriver ops rnd rt w of
        (res, rt1) \<Rightarrow>
          (case getReadDriver_times n ops rnd rt1 w of
             (rest, rt2) \<Rightarrow> (res # rest, rt2)))"

text \<open>
  The router after earlier calls of \<^verbatim>\<open>getReadDriver\<close>, each with the random index
  and the state of the store of its moment.
\<close>

fun after_reads :: "'d DbDriver \<Rightarrow> (nat \<times> 'd World) list \<Rightarrow> ReplicaRouter \<Rightarrow> ReplicaRouter" where
  "after_reads ops [] rt = rt"
| "after_reads ops ((rnd, w) # rest) rt = after_reads ops rest (snd (getReadDriver ops rnd rt w))"

definition ReplicaRouter_isConnected :: "'d DbDriver \<Rightarrow> ReplicaRouter \<Rightarrow> 'd World \<Rightarrow> bool" where
  "ReplicaRouter_isConnected ops rt w =
     (let writeConnected = (case writeDriver rt of
                              None \<Rightarrow> False
                            | Some d \<Rightarrow> isConnected ops (heap w d));
          readsConnected = (length (readDrivers rt) = 0 \<or>
                            list_ex (\<lambda>d. isConnected ops (heap w d)) (readDrivers rt))
      in writeConnected \<and> readsConnected)"


section \<open>Life cycles of the postgres and sqlite drivers (drivers/*.ts)\<close>

text \<open>
  Two implementations of the interface, used for concrete runs. Each postgres driver
  owns its pool (\<^verbatim>\<open>new Pool\<close>), assigned before the test connection is awaited, so
  a failed \<^verbatim>\<open>connect\<close> leaves the pool in place and the flag as it was. The network
  is outside the repository: \<open>reachable\<close> says whether \<^verbatim>\<open>pool.connect\<close> to the
  configured host and port succeeds and \<open>closable\<close> whether \<^verbatim>\<open>pool.end\<close> does. A
  failed \<^verbatim>\<open>pool.end\<close> throws before the pool is dropped and the flag cleared.
\<close>

record Network =
  reachable :: "string option \<Rightarrow> nat option \<Rightarrow> bool"
  closable :: "string option \<Rightarrow> nat option \<Rightarrow> bool"

definition PostgresDriver_connect :: "Network \<Rightarrow> Driver \<Rightarrow> error option \<times> Driver" where
  "PostgresDriver_connect net d =
     (if reachable net (host (config d)) (port (config d))
      then (None, d\<lparr>handle := True, connected := True\<rparr>)
      else (Some (BackendError ''connect''), d\<lparr>handle := True\<rparr>))"

definition PostgresDriver_disconnect :: "Network \<Rightarrow> Driver \<Rightarrow> error option \<times> Driver" where
  "PostgresDriver_disconnect net d =
     (if handle d then
        (if closable net (host (config d)) (port (config d))
         then (None, d\<lparr>handle := False, connected := False\<rparr>)
         else (Some (BackendError ''end''), d))
      else (None, d\<lparr>connected := False\<rparr>))"

definition PostgresDriver_isConnected :: "Driver \<Rightarrow> bool" where
  "PostgresDriver_isConnected d = (connected d \<and> handle d)"

definition PostgresDriver :: "Network \<Rightarrow> Driver DbDriver" where
  "PostgresDriver net =
     \<lparr>connect = PostgresDriver_connect net, disconnect = PostgresDriver_disconnect net,
      isConnected = PostgresDriver_isConnected\<rparr>"

text \<open>
  The sqlite driver keeps its database in memory and writes it to
  \<^verbatim>\<open>config.filepath || config.database\<close> on \<^verbatim>\<open>disconnect\<close>, unless the connection
  is read-only. \<^verbatim>\<open>connect\<close> falls back to an empty database when the file cannot be
  read, so it fails only if \<^verbatim>\<open>initSqlJs\<close> does. \<open>writable\<close> says whether
  \<^verbatim>\<open>fs.writeFileSync\<close> to a path succeeds; when it throws, the database stays open
  and the flag set.
\<close>

record FileSystem =
  sqlJsLoads :: bool
  writable :: "string \<Rightarrow> bool"

definition filepath_of :: "ConnectionConfig \<Rightarrow> string option" where
  "filepath_of cfg =
     (case filepath cfg of
        None \<Rightarrow> database cfg
      | Some f \<Rightarrow> if f = [] then database cfg else Some f)"

definition SqliteDriver_connect :: "FileSystem \<Rightarrow> Driver \<Rightarrow> error option \<times> Driver" where
  "SqliteDriver_connect files d =
     (if sqlJsLoads files then (None, d\<lparr>handle := True, connected := True\<rparr>)
      else (Some (BackendError ''initSqlJs''), d))"

definition SqliteDriver_disconnect :: "FileSystem \<Rightarrow> Driver \<Rightarrow> error option \<times> Driver" where
  "SqliteDriver_disconnect files d =
     (if handle d then
        (if \<not> truthy (readOnly (config d)) \<and>
            \<not> (case filepath_of (config d) of None \<Rightarrow> False | Some p \<Rightarrow> writable files p)
         then (Some (BackendError ''writeFileSync''), d)
         else (None, d\<lparr>handle := False, connected := False\<rparr>))
      else (None, d\<lparr>connected := False\<rparr>))"

definition SqliteDriver_isConnected :: "Driver \<Rightarrow> bool" where
  "SqliteDriver_isConnected d = (connected d \<and> handle d)"

definition SqliteDriver :: "FileSystem \<Rightarrow> Driver DbDriver" where
  "SqliteDriver files =
     \<lparr>connect = SqliteDriver_connect files, disconnect = SqliteDriver_disconnect files,
      isConnected = SqliteDriver_isConnected\<rparr>"


section \<open>Fixtures for concrete runs\<close>

text \<open>
  The capability tables of the SQL drivers (drivers/capabilities.ts) and the
  registrations of the postgres and sqlite drivers.
\<close>

definition SQL_FULL_CAPABILITIES :: DriverCapabilities where
  "SQL_FULL_CAPABILITIES =
     \<lparr>supportsSchemas = True, supportsTables = True, supportsViews = True,
      supportsCollections = False, supportsMeasurements = False, supportsSQL = True,
      supportsNoSQLQueries = False, supportsFlux = False, supportsPromQL = False,
      supportsInsert = True, supportsUpdate = True, supportsDelete = True,
      supportsTruncate = True, supportsDDL = True, supportsTransactions = True,
      supportsPrimaryKeys = True, supportsExport = True, supportsRowEditing = True,
      treeStructure = SchemaTableColumn\<rparr>"

definition SQLITE_CAPABILITIES :: DriverCapabilities where
  "SQLITE_CAPABILITIES =
     SQL_FULL_CAPABILITIES\<lparr>supportsSchemas := False, treeStructure := DatabaseTableColumn\<rparr>"

definition postgresMetadata :: DriverMetadata where
  "postgresMetadata =
     \<lparr>mid = ''postgres'', displayName = ''PostgreSQL'', capabilities = SQL_FULL_CAPABILITIES\<rparr>"

definition sqliteMetadata :: DriverMetadata where
  "sqliteMetadata =
     \<lparr>mid = ''sqlite'', displayName = ''SQLite'', capabilities = SQLITE_CAPABILITIES\<rparr>"

definition driver_factory :: "(string \<times> Driver DriverRegistration) list" where
  "driver_factory =
     DriverFactory_register
       (DriverFactory_register [] postgresMetadata (Driver_new Postgres))
       sqliteMetadata (Driver_new Sqlite)"

definition empty_world :: "Driver World" where
  "empty_world =
     \<lparr>heap = (\<lambda>r. Driver_new Postgres (readonly_config []) []), fresh = 0, calls = [],
      console = []\<rparr>"

lemmas fixture_defs = driver_factory_def postgresMetadata_def sqliteMetadata_def
  empty_world_def Driver_new_def DriverFactory_register_def

text \<open>
  A registry holding two open sqlite drivers. On \<open>disk\<close> every file can be written;
  on \<open>disk_locked\<close> the file of connection \<open>c1\<close> cannot.
\<close>

definition sqlite_config :: "string \<Rightarrow> string \<Rightarrow> ConnectionConfig" where
  "sqlite_config i f =
     \<lparr>cid = i, cname = i, ctype = ''sqlite'', host = None, port = None,
      database = None, username = None, filepath = Some f, readOnly = None,
      replicaConfig = None, options = []\<rparr>"

definition disk :: FileSystem where
  "disk = \<lparr>sqlJsLoads = True, writable = (\<lambda>p. True)\<rparr>"

definition disk_locked :: FileSystem where
  "disk_locked = \<lparr>sqlJsLoads = True, writable = (\<lambda>p. p \<noteq> ''/data/a.db'')\<rparr>"

definition two_store :: ConnectionStore where
  "two_store =
     \<lparr>connections = [(''c1'', sqlite_config ''c1'' ''/data/a.db''),
                      (''c2'', sqlite_config ''c2'' ''/data/b.db'')],
      secrets = [(''database-explorer.password.c1'', ''pw'')]\<rparr>"

definition open_sqlite :: "string \<Rightarrow> string \<Rightarrow> Driver" where
  "open_sqlite i f =
     (Driver_new Sqlite (sqlite_config i f) [])\<lparr>connected := True, handle := True\<rparr>"

definition two_world :: "Driver World" where
  "two_world =
     \<lparr>heap = (\<lambda>r. if r = 0 then open_sqlite ''c1'' ''/data/a.db''
                    else open_sqlite ''c2'' ''/data/b.db''),
      fresh = 2, calls = [], console = []\<rparr>"

definition two_registry :: DriverRegistry where
  "two_registry = \<lparr>drivers = [(''c1'', 0), (''c2'', 1)], connectionStore = two_store\<rparr>"

text \<open>The store after a caller has closed the driver of \<open>c1\<close> on its own.\<close>

definition closed_world :: "Driver World" where
  "closed_world = snd (call_disconnect (SqliteDriver disk) 0 two_world)"

lemmas registry_fixture_defs = sqlite_config_def disk_def disk_locked_def two_store_def
  open_sqlite_def two_world_def two_registry_def

lemmas sqlite_defs = SqliteDriver_def SqliteDriver_connect_def SqliteDriver_disconnect_def
  SqliteDriver_isConnected_def filepath_of_def truthy_def

text \<open>
  A replica configuration with three read hosts for postgres drivers, and three
  networks: on \<open>net_up\<close> every server answers, on \<open>net_r1_down\<close> the server \<open>r1\<close>
  refuses connections, on \<open>net_r2_down\<close> the server \<open>r2\<close> does.
\<close>

definition postgres_config :: "string \<Rightarrow> string \<Rightarrow> ConnectionConfig" where
  "postgres_config i h =
     \<lparr>cid = i, cname = i, ctype = ''postgres'', host = Some h, port = Some 5432,
      database = Some ''app'', username = Some ''app'', filepath = None, readOnly = None,
      replicaConfig = None, options = []\<rparr>"

definition three_replicas :: "LoadBalancing \<Rightarrow> ReplicaConfig" where
  "three_replicas lb =
     \<lparr>enabled = True, writeHost = ''primary'', writePort = 5432,
      readHosts = [\<lparr>rhost = ''r1'', rport = 5432, weight = None\<rparr>,
                   \<lparr>rhost = ''r2'', rport = 5432, weight = None\<rparr>,
                   \<lparr>rhost = ''r3'', rport = 5432, weight = None\<rparr>],
      loadBalancing = lb\<rparr>"

definition net_up :: Network where
  "net_up = \<lparr>reachable = (\<lambda>h p. True), closable = (\<lambda>h p. True)\<rparr>"

definition net_r1_down :: Network where
  "net_r1_down = \<lparr>reachable = (\<lambda>h p. h \<noteq> Some ''r1''), closable = (\<lambda>h p. True)\<rparr>"

definition net_r2_down :: Network where
  "net_r2_down = \<lparr>reachable = (\<lambda>h p. h \<noteq> Some ''r2''), closable = (\<lambda>h p. True)\<rparr>"

definition fresh_router :: "LoadBalancing \<Rightarrow> ReplicaRouter" where
  "fresh_router lb = ReplicaRouter_new (three_replicas lb) (postgres_config ''c1'' ''primary'') ''pw''"

lemmas router_fixture_defs = postgres_config_def three_replicas_def net_up_def net_r1_down_def
  net_r2_down_def fresh_router_def ReplicaRouter_new_def withEndpoint_def

lemmas postgres_defs = PostgresDriver_def PostgresDriver_connect_def PostgresDriver_disconnect_def
  PostgresDriver_isConnected_def

lemmas run_defs = ReplicaRouter_connect_def DriverFactory_create_def alloc_def call_connect_def
  call_disconnect_def ReplicaRouter_disconnect_def getReadDriver_def at_index_def getWriteDriver_def

text \<open>
  Two runs of \<open>connect\<close> on a new router: one where \<open>r1\<close> refuses, so that no read
  driver is kept, and one where every server answers; and the store after a caller
  has then closed the three read drivers.
\<close>

definition partial_run :: "error option \<times> ReplicaRouter \<times> Driver World" where
  "partial_run =
     ReplicaRouter_connect (PostgresDriver net_r1_down) driver_factory (fresh_router RoundRobin)
       empty_world"

definition full_run :: "error option \<times> ReplicaRouter \<times> Driver World" where
  "full_run =
     ReplicaRouter_connect (PostgresDriver net_up) driver_factory (fresh_router RoundRobin)
       empty_world"

definition reads_closed :: "Driver World" where
  "reads_closed =
     snd (call_disconnect (PostgresDriver net_up) 3
       (snd (call_disconnect (PostgresDriver net_up) 2
         (snd (call_disconnect (PostgresDriver net_up) 1 (snd (snd full_run)))))))"

definition read_twice :: ReplicaRouter where
  "read_twice =
     after_reads (PostgresDriver net_up) [(0, snd (snd full_run)), (0, snd (snd full_run))]
       (fst (snd full_run))"


section \<open>Theorems: capability model\<close>

text \<open>
  C3. For every capability set \<open>C\<close>, the effective capabilities under read-only have
  insert, update, delete, truncate, DDL and row editing cleared and every other field
  as in \<open>C\<close>; when the connection is not read-only (flag false or absent) the result
  is \<open>C\<close> itself.
\<close>

theorem effectiveCapabilities_readOnly_clears_writes:
  "supportsInsert (getEffectiveCapabilities C (Some True)) = False
   \<and> supportsUpdate (getEffectiveCapabilities C (Some True)) = False
   \<and> supportsDelete (getEffectiveCapabilities C (Some True)) = False
   \<and> supportsTruncate (getEffectiveCapabilities C (Some True)) = False
   \<and> supportsDDL (getEffectiveCapabilities C (Some True)) = False
   \<and> supportsRowEditing (getEffectiveCapabilities C (Some True)) = False
   \<and> supportsSchemas (getEffectiveCapabilities C (Some True)) = supportsSchemas C
   \<and> supportsTables (getEffectiveCapabilities C (Some True)) = supportsTables C
   \<and> supportsViews (getEffectiveCapabilities C (Some True)) = supportsViews C
   \<and> supportsCollections (getEffectiveCapabilities C (Some True)) = supportsCollections C
   \<and> supportsMeasurements (getEffectiveCapabilities C (Some True)) = supportsMeasurements C
   \<and> supportsSQL (getEffectiveCapabilities C (Some True)) = supportsSQL C
   \<and> supportsNoSQLQueries (getEffectiveCapabilities C (Some True)) = supportsNoSQLQueries C
   \<and> supportsFlux (getEffectiveCapabilities C (Some True)) = supportsFlux C
   \<and> supportsPromQL (getEffectiveCapabilities C (Some True)) = supportsPromQL C
   \<and> supportsTransactions (getEffectiveCapabilities C (Some True)) = supportsTransactions C
   \<and> supportsPrimaryKeys (getEffectiveCapabilities C (Some True)) = supportsPrimaryKeys C
   \<and> supportsExport (getEffectiveCapabilities C (Some True)) = supportsExport C
   \<and> treeStructure (getEffectiveCapabilities C (Some True)) = treeStructure C
   \<and> getEffectiveCapabilities C (Some False) = C
   \<and> getEffectiveCapabilities C None = C"
  by (simp add: getEffectiveCapabilities_def truthy_def)

text \<open>
  C8. The read-only transformation is idempotent: applying it twice with the same flag
  gives what applying it once gives, for every capability set and every flag.
\<close>

theorem effectiveCapabilities_idempotent:
  "getEffectiveCapabilities (getEffectiveCapabilities C r) r = getEffectiveCapabilities C r"
  by (simp add: getEffectiveCapabilities_def)


section \<open>Theorems: write-query detection\<close>

lemma of_char_toLower_char:
  "(of_char (toLower_char c) :: nat) =
     (if (65 \<le> (of_char c :: nat) \<and> (of_char c :: nat) \<le> 90) \<or>
         (192 \<le> (of_char c :: nat) \<and> (of_char c :: nat) \<le> 222 \<and> (of_char c :: nat) \<noteq> 215)
      then of_char c + 32 else of_char c)"
  by (simp add: toLower_char_def Let_def)

lemma canonical_lower_arith:
  fixes n m :: nat
  assumes "97 \<le> m" "m \<le> 122" "n < 256"
  shows "(m - 32 =
           (let k = (if (65 \<le> n \<and> n \<le> 90) \<or> (192 \<le> n \<and> n \<le> 222 \<and> n \<noteq> 215)
                     then n + 32 else n) in
            if 97 \<le> k \<and> k \<le> 122 then k - 32
            else if 224 \<le> k \<and> k \<le> 254 \<and> k \<noteq> 247 then k - 32
            else if k = 255 then 376 else if k = 181 then 924 else k))
         \<longleftrightarrow> (if (65 \<le> n \<and> n \<le> 90) \<or> (192 \<le> n \<and> n \<le> 222 \<and> n \<noteq> 215)
              then n + 32 else n) = m"
  using assms unfolding Let_def by (auto split: if_splits)

lemma canonicalize_lower_step:
  assumes "lower_ascii p"
  shows "canonicalize p = canonicalize (toLower_char c) \<longleftrightarrow> toLower_char c = p"
proof -
  have "canonicalize p = canonicalize (toLower_char c)
          \<longleftrightarrow> (of_char (toLower_char c) :: nat) = of_char p"
    using assms canonical_lower_arith[of "of_char p" "of_char c"] nat_of_char_less_256[of c]
    unfolding lower_ascii_def canonicalize_def Let_def of_char_toLower_char
    by presburger
  then show ?thesis by simp
qed

lemma matches_ci_begins_ci:
  "list_all lower_ascii p \<Longrightarrow> matches_ci p (map toLower_char t) = begins_ci p t"
proof (induction p t rule: matches_ci.induct)
  case (1 s)
  then show ?case by (simp add: begins_ci_def)
next
  case (2 p ps)
  then show ?case by (simp add: begins_ci_def)
next
  case (3 p ps c cs)
  then show ?case by (auto simp: begins_ci_def canonicalize_lower_step)
qed

lemma regex_test_lowered:
  "regex_test (toLowerCase t) = list_ex (\<lambda>p. begins_ci p t) write_prefixes"
  unfolding regex_test_def toLowerCase_def write_prefixes_def
  by (simp add: matches_ci_begins_ci lower_ascii_def)

text \<open>
  C4. The classifier of the base driver holds of a text exactly when the trimmed text
  begins, letter case aside, with one of insert, update, delete, drop, alter, create,
  truncate, grant, revoke; the replica router's classifier is the same function; and
  a text with leading white space and mixed case such as \<open>''   InSeRt into t ...''\<close>
  is classified as a write query.
\<close>

theorem isWriteQuery_prefix_classifier:
  "BaseDbDriver_isWriteQuery sql = spec_isWriteQuery sql
   \<and> ReplicaRouter_isWriteQuery sql = BaseDbDriver_isWriteQuery sql
   \<and> BaseDbDriver_isWriteQuery ''   InSeRt into t ...'' = True
   \<and> ReplicaRouter_isWriteQuery ''   InSeRt into t ...'' = True"
proof -
  have a: "BaseDbDriver_isWriteQuery sql = spec_isWriteQuery sql"
    by (simp add: BaseDbDriver_isWriteQuery_def spec_isWriteQuery_def regex_test_lowered)
  have b: "ReplicaRouter_isWriteQuery sql = BaseDbDriver_isWriteQuery sql"
    by (simp add: BaseDbDriver_isWriteQuery_def ReplicaRouter_isWriteQuery_def)
  have c: "BaseDbDriver_isWriteQuery ''   InSeRt into t ...'' = True"
    by code_simp
  have d: "ReplicaRouter_isWriteQuery ''   InSeRt into t ...'' = True"
    by code_simp
  from a b c d show ?thesis by blast
qed

section \<open>Theorems: read-only enforcement in executeQuery\<close>

lemma validateQuery_rejects:
  "truthy (readOnly (config d)) \<Longrightarrow> BaseDbDriver_isWriteQuery sql \<Longrightarrow>
   validateQuery d sql = Some ReadOnlyViolation"
  by (simp add: validateQuery_def)

lemma delete_is_write: "BaseDbDriver_isWriteQuery ''DELETE FROM t'' = True"
  by code_simp

text \<open>
  C1, as the code has it. For the postgres, mysql, sqlite, mssql and mongodb drivers
  of a read-only connection, \<open>executeQuery\<close> on a text classified as a write query
  hands nothing to the backend and leaves the driver as it was; it fails with
  \<open>ReadOnlyViolation\<close> when the driver holds its client handle and with
  \<open>NotConnected\<close> when it does not (that test comes first). The influxdb and
  prometheus drivers do not validate: with the handle (for prometheus, the connected
  flag) present they hand the text to the backend and return its answer.
\<close>

theorem executeQuery_readOnly_guard:
  assumes "readOnly (config d) = Some True" and "BaseDbDriver_isWriteQuery sql"
  shows "(validating (kind d) \<longrightarrow>
            executeQuery be d sql params =
              (Inl (if handle d then ReadOnlyViolation else NotConnected), d))
         \<and> (kind d = InfluxDb \<and> handle d \<longrightarrow>
              executeQuery be d sql params =
                (runQuery be sql params, d\<lparr>backendCalls := backendCalls d @ [(sql, params)]\<rparr>))
         \<and> (kind d = Prometheus \<and> connected d \<longrightarrow>
              executeQuery be d sql params =
                (runQuery be sql params, d\<lparr>backendCalls := backendCalls d @ [(sql, params)]\<rparr>))"
proof -
  have v: "validateQuery d sql = Some ReadOnlyViolation"
    using assms by (simp add: validateQuery_rejects truthy_def)
  show ?thesis
    by (cases "kind d")
       (simp_all add: executeQuery_def validating_def v dispatch_def
          PostgresDriver_executeQuery_def MySqlDriver_executeQuery_def
          SqliteDriver_executeQuery_def MssqlDriver_executeQuery_def
          MongoDriver_executeQuery_def InfluxDbDriver_executeQuery_def
          PrometheusDriver_executeQuery_def)
qed

theorem executeQuery_readOnly_guard_witness:
  "executeQuery fake_backend (open_driver Postgres ''postgres'') ''DELETE FROM t'' None
     = (Inl ReadOnlyViolation, open_driver Postgres ''postgres'')
   \<and> backendCalls (snd (executeQuery fake_backend (open_driver Postgres ''postgres'')
        ''DELETE FROM t'' None)) = []
   \<and> executeQuery fake_backend (Driver_new Mongo (readonly_config ''mongodb'') []) ''DELETE FROM t'' None
     = (Inl NotConnected, Driver_new Mongo (readonly_config ''mongodb'') [])
   \<and> fst (executeQuery fake_prometheus (open_driver Prometheus ''prometheus'') ''DELETE FROM t'' None)
     = Inr no_series"
proof -
  have ro: "\<And>k t. readOnly (config (open_driver k t)) = Some True"
    by (simp add: open_driver_def Driver_new_def readonly_config_def)
  have ro': "readOnly (config (Driver_new Mongo (readonly_config ''mongodb'') [])) = Some True"
    by (simp add: Driver_new_def readonly_config_def)
  have w: "BaseDbDriver_isWriteQuery ''DELETE FROM t''"
    using delete_is_write by simp
  note pg = executeQuery_readOnly_guard
    [OF ro [of Postgres "''postgres''"] w, of fake_backend None]
  note mg = executeQuery_readOnly_guard [OF ro' w, of fake_backend None]
  note pr = executeQuery_readOnly_guard
    [OF ro [of Prometheus "''prometheus''"] w, of fake_prometheus None]
  have 1: "executeQuery fake_backend (open_driver Postgres ''postgres'') ''DELETE FROM t'' None
     = (Inl ReadOnlyViolation, open_driver Postgres ''postgres'')"
    using pg by (simp add: validating_def open_driver_def Driver_new_def)
  have 2: "executeQuery fake_backend (Driver_new Mongo (readonly_config ''mongodb'') []) ''DELETE FROM t'' None
     = (Inl NotConnected, Driver_new Mongo (readonly_config ''mongodb'') [])"
    using mg by (simp add: validating_def Driver_new_def)
  have 3: "fst (executeQuery fake_prometheus (open_driver Prometheus ''prometheus'') ''DELETE FROM t'' None)
     = Inr no_series"
    using pr by (simp add: open_driver_def Driver_new_def fake_prometheus_def)
  show ?thesis
    using 1 2 3 by (simp add: open_driver_def Driver_new_def)
qed

text \<open>
  C1 as the specification states it fails on the influxdb driver: on a read-only
  connection with its query API present, the write-classified text
  \<open>''DELETE FROM t''\<close> is not rejected but handed to the backend.
\<close>

theorem executeQuery_influxdb_counterexample:
  "readOnly (config (open_driver InfluxDb ''influxdb'')) = Some True
   \<and> BaseDbDriver_isWriteQuery ''DELETE FROM t''
   \<and> fst (executeQuery fake_backend (open_driver InfluxDb ''influxdb'') ''DELETE FROM t'' None)
       \<noteq> Inl ReadOnlyViolation
   \<and> backendCalls (snd (executeQuery fake_backend (open_driver InfluxDb ''influxdb'')
        ''DELETE FROM t'' None)) = [(''DELETE FROM t'', None)]"
proof -
  have "fst (executeQuery fake_backend (open_driver InfluxDb ''influxdb'') ''DELETE FROM t'' None)
       = Inr empty_result"
    by (simp add: executeQuery_def InfluxDbDriver_executeQuery_def dispatch_def
        open_driver_def Driver_new_def fake_backend_def)
  moreover have "backendCalls (snd (executeQuery fake_backend (open_driver InfluxDb ''influxdb'')
        ''DELETE FROM t'' None)) = [(''DELETE FROM t'', None)]"
    by (simp add: executeQuery_def InfluxDbDriver_executeQuery_def dispatch_def
        open_driver_def Driver_new_def)
  moreover have "readOnly (config (open_driver InfluxDb ''influxdb'')) = Some True"
    by (simp add: open_driver_def Driver_new_def readonly_config_def)
  ultimately show ?thesis using delete_is_write by simp
qed

section \<open>Theorems: connection lifecycle registry\<close>

text \<open>
  C2, as the code has it. \<open>disconnect\<close> on an id without a cached driver does
  nothing. On an id with a cached driver it calls the driver's \<open>disconnect\<close> once;
  when that succeeds the entry is removed and \<open>getDriver\<close> gives nothing for the id;
  when it throws, the error reaches the caller and the registry is unchanged, the
  driver still cached under the id.
\<close>

theorem DriverRegistry_disconnect_outcomes:
  "(getDriver reg i = None \<longrightarrow> DriverRegistry_disconnect ops reg w i = (None, reg, w))
   \<and> (getDriver reg i = Some r \<and> fst (disconnect ops (heap w r)) = None \<longrightarrow>
        (case DriverRegistry_disconnect ops reg w i of
           (res, reg', w') \<Rightarrow>
             res = None \<and> getDriver reg' i = None
             \<and> calls w' = calls w @ [(r, Disconnect)]
             \<and> heap w' = (heap w)(r := snd (disconnect ops (heap w r)))))
   \<and> (getDriver reg i = Some r \<and> fst (disconnect ops (heap w r)) = Some e \<longrightarrow>
        (case DriverRegistry_disconnect ops reg w i of
           (res, reg', w') \<Rightarrow>
             res = Some e \<and> reg' = reg \<and> getDriver reg' i = Some r
             \<and> calls w' = calls w @ [(r, Disconnect)]
             \<and> heap w' = (heap w)(r := snd (disconnect ops (heap w r)))))"
  by (auto simp: getDriver_def DriverRegistry_disconnect_def call_disconnect_def
        delete_conv split: prod.splits option.splits)

text \<open>
  C2 as the specification states it fails when the driver's \<open>disconnect\<close> throws:
  the statement after the \<^verbatim>\<open>await\<close> that deletes the entry is not reached. Here the
  file of the sqlite driver cached under \<open>''c1''\<close> cannot be written; \<open>disconnect\<close> was called
  on it, the error is returned, and \<open>getDriver\<close> still gives the driver.
\<close>

theorem DriverRegistry_disconnect_keeps_on_failure_counterexample:
  "getDriver two_registry ''c1'' = Some 0
   \<and> fst (DriverRegistry_disconnect (SqliteDriver disk_locked) two_registry two_world ''c1'')
       = Some (BackendError ''writeFileSync'')
   \<and> calls (snd (snd (DriverRegistry_disconnect (SqliteDriver disk_locked) two_registry two_world ''c1'')))
       = [(0, Disconnect)]
   \<and> getDriver (fst (snd (DriverRegistry_disconnect (SqliteDriver disk_locked) two_registry two_world ''c1''))) ''c1''
       = Some 0"
  by (simp add: getDriver_def DriverRegistry_disconnect_def call_disconnect_def fixture_defs registry_fixture_defs sqlite_defs)

theorem DriverRegistry_disconnect_outcomes_witness:
  "getDriver two_registry ''c1'' = Some 0
   \<and> fst (DriverRegistry_disconnect (SqliteDriver disk) two_registry two_world ''c1'') = None
   \<and> getDriver (fst (snd (DriverRegistry_disconnect (SqliteDriver disk) two_registry two_world ''c1''))) ''c1'' = None
   \<and> calls (snd (snd (DriverRegistry_disconnect (SqliteDriver disk) two_registry two_world ''c1''))) = [(0, Disconnect)]
   \<and> fst (DriverRegistry_disconnect (SqliteDriver disk_locked) two_registry two_world ''c1'') = Some (BackendError ''writeFileSync'')
   \<and> fst (snd (DriverRegistry_disconnect (SqliteDriver disk_locked) two_registry two_world ''c1'')) = two_registry
   \<and> DriverRegistry_disconnect (SqliteDriver disk) two_registry two_world ''c9'' = (None, two_registry, two_world)"
proof -
  have g: "getDriver two_registry ''c1'' = Some 0" "getDriver two_registry ''c9'' = None"
    by (simp_all add: getDriver_def two_registry_def)
  have ok: "fst (disconnect (SqliteDriver disk) (heap two_world 0)) = None"
    by (simp add: fixture_defs registry_fixture_defs sqlite_defs)
  have ko: "fst (disconnect (SqliteDriver disk_locked) (heap two_world 0)) = Some (BackendError ''writeFileSync'')"
    by (simp add: fixture_defs registry_fixture_defs sqlite_defs)
  have cw: "calls two_world = []" by (simp add: two_world_def)
  note a = DriverRegistry_disconnect_outcomes
    [of two_registry "''c1''" "SqliteDriver disk" two_world 0 "BackendError ''writeFileSync''"]
  note b = DriverRegistry_disconnect_outcomes
    [of two_registry "''c1''" "SqliteDriver disk_locked" two_world 0 "BackendError ''writeFileSync''"]
  note c = DriverRegistry_disconnect_outcomes
    [of two_registry "''c9''" "SqliteDriver disk" two_world 0 "BackendError ''writeFileSync''"]
  from a g ok cw b ko c show ?thesis
    by (auto split: prod.splits)
qed

lemma disconnect_each_calls:
  "calls (disconnect_each ops rs w) = calls w @ map (\<lambda>r. (r, Disconnect)) rs"
  by (induction rs arbitrary: w)
     (auto simp: call_disconnect_def split: prod.splits option.splits)

lemma disconnect_each_heap_other:
  "r \<notin> set rs \<Longrightarrow> heap (disconnect_each ops rs w) r = heap w r"
  by (induction rs arbitrary: w)
     (auto simp: call_disconnect_def split: prod.splits option.splits)

lemma disconnect_each_heap:
  "distinct rs \<Longrightarrow> r \<in> set rs \<Longrightarrow>
   heap (disconnect_each ops rs w) r = snd (disconnect ops (heap w r))"
proof (induction rs arbitrary: w)
  case Nil
  then show ?case by simp
next
  case (Cons a rs)
  show ?case
  proof (cases "r = a")
    case True
    then have "r \<notin> set rs" using Cons.prems by simp
    then show ?thesis using True
      by (auto simp: call_disconnect_def disconnect_each_heap_other split: prod.splits option.splits)
  next
    case False
    then have "r \<in> set rs" "distinct rs" using Cons.prems by auto
    then show ?thesis using False Cons.IH
      by (auto simp: call_disconnect_def split: prod.splits option.splits)
  qed
qed

lemma map_filter_agree:
  "(\<And>x. x \<in> set xs \<Longrightarrow> f x = g x) \<Longrightarrow> List.map_filter f xs = List.map_filter g xs"
  by (induction xs) (auto simp: List.map_filter_simps split: option.splits)

lemma disconnect_each_console:
  "distinct rs \<Longrightarrow>
   console (disconnect_each ops rs w)
     = console w @ List.map_filter (\<lambda>r. fst (disconnect ops (heap w r))) rs"
proof (induction rs arbitrary: w)
  case Nil
  then show ?case by (simp add: List.map_filter_simps)
next
  case (Cons a rs)
  have same: "\<And>d'. List.map_filter (\<lambda>r. fst (disconnect ops (((heap w)(a := d')) r))) rs
                 = List.map_filter (\<lambda>r. fst (disconnect ops (heap w r))) rs"
    using Cons.prems by (intro map_filter_agree) auto
  obtain res d' where d: "disconnect ops (heap w a) = (res, d')"
    by (cases "disconnect ops (heap w a)")
  have dist: "distinct rs" using Cons.prems by simp
  show ?case
  proof (cases res)
    case None
    then show ?thesis
      using d Cons.IH[OF dist] same[of d']
      by (simp add: call_disconnect_def List.map_filter_simps)
  next
    case (Some e)
    then show ?thesis
      using d Cons.IH[OF dist] same[of d']
      by (simp add: call_disconnect_def List.map_filter_simps)
  qed
qed

text \<open>
  C7. \<open>disconnectAll\<close> never raises; \<open>disconnect\<close> is invoked on every cached
  driver, in the order of the map, whatever the others did; afterwards the cache is
  empty. With the cached references distinct (each id has its own object), the console
  receives exactly the errors of the failing drivers, one entry each, and every
  cached driver is left in the state its own \<open>disconnect\<close> produced, the others
  untouched.
\<close>

theorem disconnectAll_never_raises:
  "case DriverRegistry_disconnectAll ops reg w of
     (res, reg', w') \<Rightarrow>
       res = None \<and> drivers reg' = []
       \<and> calls w' = calls w @ map (\<lambda>r. (r, Disconnect)) (map snd (drivers reg))
       \<and> (distinct (map snd (drivers reg)) \<longrightarrow>
            console w' = console w @
              List.map_filter (\<lambda>r. fst (disconnect ops (heap w r))) (map snd (drivers reg))
            \<and> (\<forall>r. heap w' r =
                  (if r \<in> set (map snd (drivers reg)) then snd (disconnect ops (heap w r))
                   else heap w r)))"
  unfolding DriverRegistry_disconnectAll_def Let_def
  using disconnect_each_heap[of "map snd (drivers reg)" _ ops w]
        disconnect_each_heap_other[of _ "map snd (drivers reg)" ops w]
  by (simp add: disconnect_each_calls disconnect_each_console)

theorem disconnectAll_never_raises_witness:
  "distinct (map snd (drivers two_registry))
   \<and> fst (DriverRegistry_disconnectAll (SqliteDriver disk_locked) two_registry two_world) = None
   \<and> drivers (fst (snd (DriverRegistry_disconnectAll (SqliteDriver disk_locked) two_registry two_world))) = []
   \<and> calls (snd (snd (DriverRegistry_disconnectAll (SqliteDriver disk_locked) two_registry two_world)))
        = [(0, Disconnect), (1, Disconnect)]
   \<and> console (snd (snd (DriverRegistry_disconnectAll (SqliteDriver disk_locked) two_registry two_world)))
        = [BackendError ''writeFileSync'']
   \<and> SqliteDriver_isConnected
        (heap (snd (snd (DriverRegistry_disconnectAll (SqliteDriver disk_locked) two_registry two_world))) 1)
        = False"
proof -
  have d: "distinct (map snd (drivers two_registry))"
    by (simp add: two_registry_def)
  have rs: "map snd (drivers two_registry) = [0, 1]"
    by (simp add: two_registry_def)
  have f0: "disconnect (SqliteDriver disk_locked) (heap two_world 0)
              = (Some (BackendError ''writeFileSync''), open_sqlite ''c1'' ''/data/a.db'')"
    by (simp add: fixture_defs registry_fixture_defs sqlite_defs)
  have f1: "disconnect (SqliteDriver disk_locked) (heap two_world 1)
              = (None, (open_sqlite ''c2'' ''/data/b.db'')\<lparr>handle := False, connected := False\<rparr>)"
    by (simp add: fixture_defs registry_fixture_defs sqlite_defs)
  have f1': "disconnect (SqliteDriver disk_locked) (heap two_world (Suc 0))
              = (None, (open_sqlite ''c2'' ''/data/b.db'')\<lparr>handle := False, connected := False\<rparr>)"
    using f1 by simp
  have cw: "calls two_world = []" "console two_world = []"
    by (simp_all add: two_world_def)
  note t = disconnectAll_never_raises [where ops="SqliteDriver disk_locked" and reg=two_registry and w=two_world]
  from t d show ?thesis
    by (auto simp: rs f0 f1' cw List.map_filter_simps SqliteDriver_isConnected_def split: prod.splits)
qed

text \<open>
  C9. When \<open>connect\<close> finds a cached driver for the id that reports not connected
  (and the cached reference names an object of the store), it never calls
  \<open>disconnect\<close> on anything, the stale object keeps its state and every other id
  keeps its entry; and when the configuration is stored, the factory knows the type
  and the new driver's \<open>connect\<close> succeeds, it returns a new object, connected,
  which replaces the stale one in the cache, the only call made being that
  \<open>connect\<close>.
\<close>

theorem DriverRegistry_connect_replaces_stale:
  assumes "getDriver reg i = Some stale"
      and "\<not> isConnected ops (heap w stale)"
      and "stale < fresh w"
  shows "case DriverRegistry_connect ops factory reg w i of
           (res, reg', w') \<Rightarrow>
             heap w' stale = heap w stale
             \<and> filter (\<lambda>c. snd c = Disconnect) (calls w') = filter (\<lambda>c. snd c = Disconnect) (calls w)
             \<and> (\<forall>j. j \<noteq> i \<longrightarrow> getDriver reg' j = getDriver reg j)
             \<and> (\<forall>cfg d d'.
                   getConnection (connectionStore reg) i = Some cfg
                   \<and> DriverFactory_create factory (ctype cfg) cfg
                        (case getPassword (connectionStore reg) i of None \<Rightarrow> [] | Some p \<Rightarrow> p) = Inr d
                   \<and> connect ops d = (None, d')
                   \<longrightarrow> res = Inr (fresh w) \<and> fresh w \<noteq> stale
                       \<and> getDriver reg' i = Some (fresh w)
                       \<and> heap w' = (heap w)(fresh w := d')
                       \<and> calls w' = calls w @ [(fresh w, Connect)])"
  using assms
  by (auto simp: DriverRegistry_connect_def getDriver_def alloc_def call_connect_def
        Let_def update_conv
      split: prod.splits option.splits sum.splits)

theorem DriverRegistry_connect_replaces_stale_witness:
  "getDriver two_registry ''c1'' = Some 0
   \<and> isConnected (SqliteDriver disk) (heap closed_world 0) = False
   \<and> 0 < fresh closed_world
   \<and> fst (DriverRegistry_connect (SqliteDriver disk) driver_factory two_registry
            closed_world ''c1'') = Inr 2
   \<and> getDriver (fst (snd (DriverRegistry_connect (SqliteDriver disk) driver_factory two_registry
            closed_world ''c1''))) ''c1'' = Some 2
   \<and> getDriver (fst (snd (DriverRegistry_connect (SqliteDriver disk) driver_factory two_registry
            closed_world ''c1''))) ''c2'' = Some 1
   \<and> heap (snd (snd (DriverRegistry_connect (SqliteDriver disk) driver_factory two_registry
            closed_world ''c1''))) 0 = heap closed_world 0
   \<and> calls (snd (snd (DriverRegistry_connect (SqliteDriver disk) driver_factory two_registry
            closed_world ''c1''))) = [(0, Disconnect), (2, Connect)]"
proof -
  let ?w = "closed_world"
  let ?d = "Driver_new Sqlite (sqlite_config ''c1'' ''/data/a.db'') ''pw''"
  have g: "getDriver two_registry ''c1'' = Some 0" "getDriver two_registry ''c2'' = Some 1"
    by (simp_all add: getDriver_def two_registry_def)
  have nc: "\<not> isConnected (SqliteDriver disk) (heap ?w 0)"
    by (simp add: closed_world_def call_disconnect_def fixture_defs registry_fixture_defs
        sqlite_defs split: prod.splits)
  have fr: "fresh ?w = 2" "calls ?w = [(0, Disconnect)]"
    by (simp_all add: closed_world_def call_disconnect_def two_world_def split: prod.splits)
  have al: "0 < fresh ?w" using fr by simp
  have gc: "getConnection (connectionStore two_registry) ''c1''
              = Some (sqlite_config ''c1'' ''/data/a.db'')"
    by (simp add: getConnection_def two_registry_def two_store_def)
  have gp: "getPassword (connectionStore two_registry) ''c1'' = Some ''pw''"
    by (simp add: getPassword_def two_registry_def two_store_def)
  have cr: "DriverFactory_create driver_factory (ctype (sqlite_config ''c1'' ''/data/a.db''))
              (sqlite_config ''c1'' ''/data/a.db'') ''pw'' = Inr ?d"
    by (simp add: DriverFactory_create_def fixture_defs sqlite_config_def)
  have co: "connect (SqliteDriver disk) ?d
              = (None, ?d\<lparr>handle := True, connected := True\<rparr>)"
    by (simp add: fixture_defs registry_fixture_defs sqlite_defs)
  note t = DriverRegistry_connect_replaces_stale
    [where reg=two_registry and i="''c1''" and stale=0 and ops="SqliteDriver disk"
       and w="?w" and factory=driver_factory, OF g(1) nc al]
  obtain res reg' w' where r:
    "DriverRegistry_connect (SqliteDriver disk) driver_factory two_registry ?w ''c1''
       = (res, reg', w')"
    by (cases "DriverRegistry_connect (SqliteDriver disk) driver_factory two_registry ?w ''c1''")
  from t r gc gp cr co
  have "res = Inr 2 \<and> getDriver reg' ''c1'' = Some 2 \<and> getDriver reg' ''c2'' = Some 1
        \<and> heap w' 0 = heap ?w 0 \<and> calls w' = [(0, Disconnect), (2, Connect)]"
    using g(2) fr by (auto simp del: fun_upd_apply)
  then show ?thesis using r g(1) nc al by simp
qed

section \<open>Theorems: replica router\<close>

lemma getReadDriver_round_robin_step:
  assumes "loadBalancing (rconfig rt) = RoundRobin"
      and "currentReadIndex rt < length (readDrivers rt)"
      and "isConnected ops (heap w (readDrivers rt ! currentReadIndex rt))"
  shows "getReadDriver ops rnd rt w =
           (Inr (readDrivers rt ! currentReadIndex rt),
            rt\<lparr>currentReadIndex := (currentReadIndex rt + 1) mod length (readDrivers rt)\<rparr>)"
  using assms by (auto simp: getReadDriver_def at_index_def)

lemma round_robin_cycle:
  assumes "loadBalancing (rconfig rt) = RoundRobin"
      and "currentReadIndex rt < length (readDrivers rt)"
      and "list_all (\<lambda>d. isConnected ops (heap w d)) (readDrivers rt)"
  shows "getReadDriver_times k ops rnd rt w =
           (map (\<lambda>j. Inr (readDrivers rt ! ((currentReadIndex rt + j) mod length (readDrivers rt)))) [0..<k],
            rt\<lparr>currentReadIndex := (currentReadIndex rt + k) mod length (readDrivers rt)\<rparr>)"
  using assms
proof (induction k arbitrary: rt)
  case 0
  then show ?case by simp
next
  case (Suc k)
  let ?n = "length (readDrivers rt)"
  let ?i = "currentReadIndex rt"
  let ?rt1 = "rt\<lparr>currentReadIndex := (?i + 1) mod ?n\<rparr>"
  have pos: "0 < ?n" using Suc.prems(2) by (cases "readDrivers rt") auto
  have con: "isConnected ops (heap w (readDrivers rt ! ?i))"
    using Suc.prems(2,3) by (simp add: list_all_length)
  have step: "getReadDriver ops rnd rt w = (Inr (readDrivers rt ! ?i), ?rt1)"
    using getReadDriver_round_robin_step[OF Suc.prems(1,2) con] .
  have ih: "getReadDriver_times k ops rnd ?rt1 w =
           (map (\<lambda>j. Inr (readDrivers ?rt1 ! ((currentReadIndex ?rt1 + j) mod length (readDrivers ?rt1)))) [0..<k],
            ?rt1\<lparr>currentReadIndex := (currentReadIndex ?rt1 + k) mod length (readDrivers ?rt1)\<rparr>)"
    using Suc.prems pos by (intro Suc.IH) auto
  have m: "\<And>j. ((?i + 1) mod ?n + j) mod ?n = (?i + Suc j) mod ?n"
    by (simp add: mod_add_left_eq)
  have small: "?i mod ?n = ?i" using Suc.prems(2) by simp
  have l: "map (\<lambda>j. Inr (readDrivers rt ! ((?i + j) mod ?n)) :: error + nat) [0..<Suc k]
            = Inr (readDrivers rt ! ?i) # map (\<lambda>j. Inr (readDrivers rt ! ((?i + Suc j) mod ?n))) [0..<k]"
    using small by (simp add: upt_rec[of 0 "Suc k"] map_Suc_upt[symmetric] del: upt_Suc)
  show ?case
    using step ih l m by simp
qed

lemma call_connect_fresh:
  "call_connect ops r w = (res, w') \<Longrightarrow> fresh w' = fresh w"
  by (auto simp: call_connect_def split: prod.splits)

lemma upt_shift: "a # [Suc a..<Suc (a + n)] = [a..<Suc (a + n)]"
  by (simp add: upt_conv_Cons)

lemma connect_reads_success:
  "connect_reads ops factory hs rt w = (None, rt', w') \<Longrightarrow>
   rt' = rt\<lparr>readDrivers := readDrivers rt @ [fresh w..<fresh w + length hs]\<rparr>"
proof (induction hs arbitrary: rt w)
  case Nil
  then show ?case by simp
next
  case (Cons h hs)
  from Cons.prems obtain d where
    cr: "DriverFactory_create factory (ctype (baseConfig rt))
           (withEndpoint (baseConfig rt) (rhost h) (rport h)) (rpassword rt) = Inr d"
    by (auto split: sum.splits)
  obtain r w1 where al: "alloc w d = (r, w1)" by (cases "alloc w d")
  then have r: "r = fresh w" and f1: "fresh w1 = Suc (fresh w)"
    by (auto simp: alloc_def)
  obtain res w2 where cc: "call_connect ops r w1 = (res, w2)"
    by (cases "call_connect ops r w1")
  have f2: "fresh w2 = Suc (fresh w)" using call_connect_fresh[OF cc] f1 by simp
  from Cons.prems cr al cc have res: "res = None"
    by (cases res) auto
  with Cons.prems cr al cc
  have rec: "connect_reads ops factory hs (rt\<lparr>readDrivers := readDrivers rt @ [r]\<rparr>) w2
               = (None, rt', w')"
    by simp
  from Cons.IH[OF rec] show ?case
    using r f2 upt_shift[of "fresh w" "length hs"] by simp
qed

lemma connect_reads_prefix_failure:
  assumes "map_of factory (ctype (baseConfig rt)) = Some rg"
      and "list_all (\<lambda>h'. fst (connect ops (constructor rg
              (withEndpoint (baseConfig rt) (rhost h') (rport h')) (rpassword rt))) = None) pre"
      and "fst (connect ops (constructor rg
              (withEndpoint (baseConfig rt) (rhost h) (rport h)) (rpassword rt))) = Some e"
  shows "case connect_reads ops factory (pre @ h # post) rt w of
           (res, rt', w') \<Rightarrow>
             res = Some e
             \<and> rt' = rt\<lparr>readDrivers := readDrivers rt @ [fresh w..<fresh w + length pre]\<rparr>
             \<and> calls w' = calls w @ map (\<lambda>r. (r, Connect)) [fresh w..<Suc (fresh w + length pre)]
             \<and> (\<forall>r. r < fresh w \<longrightarrow> heap w' r = heap w r)
             \<and> map (heap w') [fresh w..<fresh w + length pre]
                 = map (\<lambda>h'. snd (connect ops (constructor rg
                      (withEndpoint (baseConfig rt) (rhost h') (rport h')) (rpassword rt)))) pre"
  using assms
proof (induction pre arbitrary: rt w)
  case Nil
  then show ?case
    by (auto simp: DriverFactory_create_def alloc_def call_connect_def split: prod.splits)
next
  case (Cons a pre)
  let ?d = "constructor rg (withEndpoint (baseConfig rt) (rhost a) (rport a)) (rpassword rt)"
  obtain d' where c: "connect ops ?d = (None, d')"
    using Cons.prems(2) by (cases "connect ops ?d") auto
  let ?w2 = "w\<lparr>fresh := Suc (fresh w), heap := (heap w)(fresh w := d'),
                calls := calls w @ [(fresh w, Connect)]\<rparr>"
  let ?rt1 = "rt\<lparr>readDrivers := readDrivers rt @ [fresh w]\<rparr>"
  have step: "connect_reads ops factory ((a # pre) @ h # post) rt w
                = connect_reads ops factory (pre @ h # post) ?rt1 ?w2"
    using Cons.prems(1) c
    by (simp add: DriverFactory_create_def alloc_def call_connect_def)
  have ih: "case connect_reads ops factory (pre @ h # post) ?rt1 ?w2 of
           (res, rt', w') \<Rightarrow>
             res = Some e
             \<and> rt' = ?rt1\<lparr>readDrivers := readDrivers ?rt1 @ [fresh ?w2..<fresh ?w2 + length pre]\<rparr>
             \<and> calls w' = calls ?w2 @ map (\<lambda>r. (r, Connect)) [fresh ?w2..<Suc (fresh ?w2 + length pre)]
             \<and> (\<forall>r. r < fresh ?w2 \<longrightarrow> heap w' r = heap ?w2 r)
             \<and> map (heap w') [fresh ?w2..<fresh ?w2 + length pre]
                 = map (\<lambda>h'. snd (connect ops (constructor rg
                      (withEndpoint (baseConfig ?rt1) (rhost h') (rport h')) (rpassword ?rt1)))) pre"
    using Cons.prems by (intro Cons.IH) auto
  obtain res rt' w' where r: "connect_reads ops factory (pre @ h # post) ?rt1 ?w2 = (res, rt', w')"
    by (cases "connect_reads ops factory (pre @ h # post) ?rt1 ?w2")
  from ih r have
    1: "res = Some e" and
    2: "rt' = rt\<lparr>readDrivers := readDrivers rt @ fresh w # [Suc (fresh w)..<Suc (fresh w + length pre)]\<rparr>" and
    3: "calls w' = calls w @ (fresh w, Connect) # map (\<lambda>r. (r, Connect)) [Suc (fresh w)..<Suc (Suc (fresh w + length pre))]" and
    4: "\<forall>r. r < Suc (fresh w) \<longrightarrow> heap w' r = heap ?w2 r" and
    5: "map (heap w') [Suc (fresh w)..<Suc (fresh w + length pre)]
                 = map (\<lambda>h'. snd (connect ops (constructor rg
                      (withEndpoint (baseConfig rt) (rhost h') (rport h')) (rpassword rt)))) pre"
    by auto
  have h0: "heap w' (fresh w) = d'" using 4 by simp
  have lo: "\<forall>r. r < fresh w \<longrightarrow> heap w' r = heap w r" using 4 by simp
  have u1: "fresh w # [Suc (fresh w)..<Suc (fresh w + length pre)] = [fresh w..<Suc (fresh w + length pre)]"
    by (simp add: upt_conv_Cons del: upt_Suc)
  have u2: "fresh w # [Suc (fresh w)..<Suc (Suc (fresh w + length pre))] = [fresh w..<Suc (Suc (fresh w + length pre))]"
    by (simp add: upt_conv_Cons del: upt_Suc)
  have c2: "rt' = rt\<lparr>readDrivers := readDrivers rt @ [fresh w..<Suc (fresh w + length pre)]\<rparr>"
    using 2 u1 by simp
  have c3: "calls w' = calls w @ map (\<lambda>r. (r, Connect)) [fresh w..<Suc (Suc (fresh w + length pre))]"
    unfolding u2[symmetric] using 3 by simp
  have c5: "map (heap w') [fresh w..<Suc (fresh w + length pre)]
                 = map (\<lambda>h'. snd (connect ops (constructor rg
                      (withEndpoint (baseConfig rt) (rhost h') (rport h')) (rpassword rt)))) (a # pre)"
    unfolding u1[symmetric] using 5 h0 c by simp
  show ?case
    unfolding step r using 1 c2 c3 lo c5 by (simp del: upt_Suc)
qed

lemma ReplicaRouter_connect_success:
  assumes "ReplicaRouter_connect ops factory rt w = (None, rt', w')"
  shows "rt' = rt\<lparr>writeDriver := Some (fresh w),
                   readDrivers := readDrivers rt @
                     [Suc (fresh w)..<Suc (fresh w) + length (readHosts (rconfig rt))]\<rparr>"
proof -
  from assms obtain d where
    cr: "DriverFactory_create factory (ctype (baseConfig rt))
           (withEndpoint (baseConfig rt) (writeHost (rconfig rt)) (writePort (rconfig rt)))
           (rpassword rt) = Inr d"
    by (auto simp: ReplicaRouter_connect_def split: sum.splits)
  obtain res w2 where cc:
    "call_connect ops (fresh w) (w\<lparr>heap := (heap w)(fresh w := d), fresh := Suc (fresh w)\<rparr>) = (res, w2)"
    by (cases "call_connect ops (fresh w) (w\<lparr>heap := (heap w)(fresh w := d), fresh := Suc (fresh w)\<rparr>)")
  have f2: "fresh w2 = Suc (fresh w)" using call_connect_fresh[OF cc] by simp
  from assms cr cc have res: "res = None"
    by (cases res) (auto simp: ReplicaRouter_connect_def alloc_def)
  with assms cr cc
  have "connect_reads ops factory (readHosts (rconfig rt)) (rt\<lparr>writeDriver := Some (fresh w)\<rparr>) w2
          = (None, rt', w')"
    by (simp add: ReplicaRouter_connect_def alloc_def)
  from connect_reads_success[OF this] show ?thesis using f2 by simp
qed

text \<open>
  C5. A router built for the round-robin strategy whose \<open>connect\<close> succeeded on three
  read hosts holds three distinct read drivers; when all three report connected, six
  consecutive calls of \<open>getReadDriver\<close> return them in the order of the list, twice
  over, beginning with the first. (\<open>round_robin_cycle\<close> above is the general
  statement: from any cursor within the list, the \<open>j\<close>-th call returns the driver at
  cursor plus \<open>j\<close> modulo the number of replicas.)
\<close>

theorem round_robin_three_replicas:
  assumes "ReplicaRouter_connect ops factory (ReplicaRouter_new cfg base pw) w = (None, rt, w')"
      and "loadBalancing cfg = RoundRobin"
      and "length (readHosts cfg) = 3"
      and "list_all (\<lambda>d. isConnected ops (heap w' d)) (readDrivers rt)"
  shows "\<exists>a b c. readDrivers rt = [a, b, c] \<and> distinct [a, b, c]
           \<and> fst (getReadDriver_times 6 ops rnd rt w')
               = [Inr a, Inr b, Inr c, Inr a, Inr b, Inr c]"
proof -
  let ?f = "fresh w"
  have rt: "rt = (ReplicaRouter_new cfg base pw)\<lparr>writeDriver := Some ?f,
              readDrivers := [Suc ?f, Suc (Suc ?f), Suc (Suc (Suc ?f))]\<rparr>"
    using ReplicaRouter_connect_success[OF assms(1)] assms(3)
    by (simp add: ReplicaRouter_new_def upt_rec[of "Suc ?f"] upt_rec[of "Suc (Suc ?f)"]
          upt_rec[of "Suc (Suc (Suc ?f))"])
  have rd: "readDrivers rt = [Suc ?f, Suc (Suc ?f), Suc (Suc (Suc ?f))]"
    and cur: "currentReadIndex rt = 0" and lb: "loadBalancing (rconfig rt) = RoundRobin"
    using rt assms(2) by (simp_all add: ReplicaRouter_new_def)
  have inr: "currentReadIndex rt < length (readDrivers rt)" using rd cur by simp
  have six: "[0..<6] = [0, 1, 2, 3, 4, 5::nat]"
    by (simp add: upt_rec)
  have "fst (getReadDriver_times 6 ops rnd rt w')
          = [Inr (Suc ?f), Inr (Suc (Suc ?f)), Inr (Suc (Suc (Suc ?f))),
             Inr (Suc ?f), Inr (Suc (Suc ?f)), Inr (Suc (Suc (Suc ?f)))]"
    unfolding round_robin_cycle[OF lb inr assms(4)] by (simp add: rd cur six)
  then show ?thesis using rd by simp
qed

text \<open>
  C10. \<open>connect\<close> is not atomic. When the factory knows the driver type, the write
  driver connects, the read hosts before \<open>h\<close> connect and the connect of \<open>h\<close> fails
  with \<open>e\<close>, then \<open>e\<close> reaches the caller; the write driver is assigned and in the
  state its connect left it in; the drivers of the hosts before \<open>h\<close> are appended to
  the read-driver list, each in the state its connect left it in; and the only calls
  made are connects, so nothing is rolled back. For an implementation whose successful
  \<open>connect\<close> leaves the object reporting connected, the write driver and those read
  drivers report connected.
\<close>

theorem ReplicaRouter_connect_not_atomic:
  assumes "map_of factory (ctype (baseConfig rt)) = Some rg"
      and "fst (connect ops (constructor rg
              (withEndpoint (baseConfig rt) (writeHost (rconfig rt)) (writePort (rconfig rt)))
              (rpassword rt))) = None"
      and "readHosts (rconfig rt) = pre @ h # post"
      and "list_all (\<lambda>h'. fst (connect ops (constructor rg
              (withEndpoint (baseConfig rt) (rhost h') (rport h')) (rpassword rt))) = None) pre"
      and "fst (connect ops (constructor rg
              (withEndpoint (baseConfig rt) (rhost h) (rport h)) (rpassword rt))) = Some e"
  shows "case ReplicaRouter_connect ops factory rt w of
           (res, rt', w') \<Rightarrow>
             res = Some e
             \<and> writeDriver rt' = Some (fresh w)
             \<and> heap w' (fresh w) = snd (connect ops (constructor rg
                  (withEndpoint (baseConfig rt) (writeHost (rconfig rt)) (writePort (rconfig rt)))
                  (rpassword rt)))
             \<and> readDrivers rt' = readDrivers rt @ [Suc (fresh w)..<Suc (fresh w) + length pre]
             \<and> map (heap w') [Suc (fresh w)..<Suc (fresh w) + length pre]
                 = map (\<lambda>h'. snd (connect ops (constructor rg
                      (withEndpoint (baseConfig rt) (rhost h') (rport h')) (rpassword rt)))) pre
             \<and> calls w' = calls w @
                 map (\<lambda>r. (r, Connect)) [fresh w..<Suc (Suc (fresh w + length pre))]
             \<and> ((\<forall>d. fst (connect ops d) = None \<longrightarrow> isConnected ops (snd (connect ops d))) \<longrightarrow>
                  isConnected ops (heap w' (fresh w))
                  \<and> list_all (\<lambda>r. isConnected ops (heap w' r))
                       [Suc (fresh w)..<Suc (fresh w) + length pre])"
proof -
  let ?dw = "constructor rg
              (withEndpoint (baseConfig rt) (writeHost (rconfig rt)) (writePort (rconfig rt)))
              (rpassword rt)"
  obtain dw' where c: "connect ops ?dw = (None, dw')"
    using assms(2) by (cases "connect ops ?dw") auto
  let ?w2 = "w\<lparr>fresh := Suc (fresh w), heap := (heap w)(fresh w := dw'),
                calls := calls w @ [(fresh w, Connect)]\<rparr>"
  let ?rt1 = "rt\<lparr>writeDriver := Some (fresh w)\<rparr>"
  have step: "ReplicaRouter_connect ops factory rt w
                = connect_reads ops factory (pre @ h # post) ?rt1 ?w2"
    using assms(1,3) c
    by (simp add: ReplicaRouter_connect_def DriverFactory_create_def alloc_def call_connect_def)
  have pf: "case connect_reads ops factory (pre @ h # post) ?rt1 ?w2 of
           (res, rt', w') \<Rightarrow>
             res = Some e
             \<and> rt' = ?rt1\<lparr>readDrivers := readDrivers ?rt1 @ [fresh ?w2..<fresh ?w2 + length pre]\<rparr>
             \<and> calls w' = calls ?w2 @ map (\<lambda>r. (r, Connect)) [fresh ?w2..<Suc (fresh ?w2 + length pre)]
             \<and> (\<forall>r. r < fresh ?w2 \<longrightarrow> heap w' r = heap ?w2 r)
             \<and> map (heap w') [fresh ?w2..<fresh ?w2 + length pre]
                 = map (\<lambda>h'. snd (connect ops (constructor rg
                      (withEndpoint (baseConfig ?rt1) (rhost h') (rport h')) (rpassword ?rt1)))) pre"
    using assms(1,4,5) by (intro connect_reads_prefix_failure) auto
  obtain res rt' w' where r: "connect_reads ops factory (pre @ h # post) ?rt1 ?w2 = (res, rt', w')"
    by (cases "connect_reads ops factory (pre @ h # post) ?rt1 ?w2")
  from pf r have
    1: "res = Some e" and
    2: "rt' = rt\<lparr>writeDriver := Some (fresh w),
                  readDrivers := readDrivers rt @ [Suc (fresh w)..<Suc (fresh w) + length pre]\<rparr>" and
    3: "calls w' = calls w @ (fresh w, Connect) #
           map (\<lambda>r. (r, Connect)) [Suc (fresh w)..<Suc (Suc (fresh w + length pre))]" and
    4: "\<forall>r. r < Suc (fresh w) \<longrightarrow> heap w' r = heap ?w2 r" and
    5: "map (heap w') [Suc (fresh w)..<Suc (fresh w) + length pre]
                 = map (\<lambda>h'. snd (connect ops (constructor rg
                      (withEndpoint (baseConfig rt) (rhost h') (rport h')) (rpassword rt)))) pre"
    by auto
  have hw: "heap w' (fresh w) = snd (connect ops ?dw)" using 4 c by simp
  have u: "(fresh w, Connect) # map (\<lambda>r. (r, Connect)) [Suc (fresh w)..<Suc (Suc (fresh w + length pre))]
            = map (\<lambda>r. (r, Connect)) [fresh w..<Suc (Suc (fresh w + length pre))]"
    by (simp add: upt_conv_Cons del: upt_Suc)
  have con: "(\<forall>d. fst (connect ops d) = None \<longrightarrow> isConnected ops (snd (connect ops d))) \<Longrightarrow>
             isConnected ops (heap w' (fresh w))
             \<and> list_all (\<lambda>r. isConnected ops (heap w' r)) [Suc (fresh w)..<Suc (fresh w) + length pre]"
  proof -
    assume k: "\<forall>d. fst (connect ops d) = None \<longrightarrow> isConnected ops (snd (connect ops d))"
    have a: "isConnected ops (heap w' (fresh w))" using hw k assms(2) by simp
    have "list_all (isConnected ops) (map (heap w') [Suc (fresh w)..<Suc (fresh w) + length pre])"
      unfolding 5 using k assms(4) by (simp add: list_all_iff)
    then have b: "list_all (\<lambda>r. isConnected ops (heap w' r)) [Suc (fresh w)..<Suc (fresh w) + length pre]"
      by (simp add: list_all_iff)
    from a b show ?thesis by simp
  qed
  have c3: "calls w' = calls w @ map (\<lambda>r. (r, Connect)) [fresh w..<Suc (Suc (fresh w + length pre))]"
    using 3 u by simp
  show ?thesis
    unfolding step r using 1 2 c3 hw 5 con by (simp del: upt_Suc)
qed

lemma first_connect:
  "fst (ReplicaRouter_connect (PostgresDriver net_up) driver_factory (fresh_router RoundRobin) empty_world) = None
   \<and> fst (snd (ReplicaRouter_connect (PostgresDriver net_up) driver_factory (fresh_router RoundRobin) empty_world))
       = (fresh_router RoundRobin)\<lparr>writeDriver := Some 0, readDrivers := [1, 2, 3]\<rparr>"
  by (simp add: run_defs fixture_defs router_fixture_defs postgres_defs)

lemma first_connect_world:
  "calls (snd (snd (ReplicaRouter_connect (PostgresDriver net_up) driver_factory (fresh_router RoundRobin) empty_world)))
     = [(0, Connect), (1, Connect), (2, Connect), (3, Connect)]
   \<and> list_all (\<lambda>d. isConnected (PostgresDriver net_up)
         (heap (snd (snd (ReplicaRouter_connect (PostgresDriver net_up) driver_factory (fresh_router RoundRobin)
            empty_world))) d)) [1, 2, 3]"
  by (simp add: run_defs fixture_defs router_fixture_defs postgres_defs)

theorem round_robin_three_replicas_witness:
  "fst (ReplicaRouter_connect (PostgresDriver net_up) driver_factory (fresh_router RoundRobin) empty_world) = None
   \<and> readDrivers (fst (snd (ReplicaRouter_connect (PostgresDriver net_up) driver_factory (fresh_router RoundRobin)
         empty_world))) = [1, 2, 3]
   \<and> fst (getReadDriver_times 6 (PostgresDriver net_up) 0
         (fst (snd (ReplicaRouter_connect (PostgresDriver net_up) driver_factory (fresh_router RoundRobin) empty_world)))
         (snd (snd (ReplicaRouter_connect (PostgresDriver net_up) driver_factory (fresh_router RoundRobin) empty_world))))
       = [Inr 1, Inr 2, Inr 3, Inr 1, Inr 2, Inr 3]"
proof -
  let ?run = "ReplicaRouter_connect (PostgresDriver net_up) driver_factory (fresh_router RoundRobin) empty_world"
  let ?rt = "fst (snd ?run)"
  let ?w = "snd (snd ?run)"
  have run: "?run = (None, ?rt, ?w)"
    using first_connect by (simp add: prod_eq_iff)
  have rd: "readDrivers ?rt = [1, 2, 3]"
    using first_connect by (simp add: fresh_router_def ReplicaRouter_new_def)
  have lb: "loadBalancing (three_replicas RoundRobin) = RoundRobin"
    and n: "length (readHosts (three_replicas RoundRobin)) = 3"
    by (simp_all add: three_replicas_def)
  have con: "list_all (\<lambda>d. isConnected (PostgresDriver net_up) (heap ?w d)) (readDrivers ?rt)"
    using first_connect_world rd by simp
  note t = round_robin_three_replicas
    [where ops="PostgresDriver net_up" and factory=driver_factory and cfg="three_replicas RoundRobin"
       and base="postgres_config ''c1'' ''primary''" and pw="''pw''" and w=empty_world
       and rt="?rt" and w'="?w" and rnd=0]
  have "\<exists>a b c. readDrivers ?rt = [a, b, c] \<and> distinct [a, b, c]
           \<and> fst (getReadDriver_times 6 (PostgresDriver net_up) 0 ?rt ?w)
               = [Inr a, Inr b, Inr c, Inr a, Inr b, Inr c]"
    using t run lb n con unfolding fresh_router_def by blast
  with rd have "fst (getReadDriver_times 6 (PostgresDriver net_up) 0 ?rt ?w)
               = [Inr 1, Inr 2, Inr 3, Inr 1, Inr 2, Inr 3]"
    by auto
  then show ?thesis using first_connect rd by simp
qed

lemma postgres_connect_contract:
  "\<forall>d. fst (connect (PostgresDriver net) d) = None \<longrightarrow>
       isConnected (PostgresDriver net) (snd (connect (PostgresDriver net) d))"
  by (simp add: postgres_defs)

theorem ReplicaRouter_connect_not_atomic_witness:
  "fst (ReplicaRouter_connect (PostgresDriver net_r2_down) driver_factory (fresh_router RoundRobin) empty_world)
     = Some (BackendError ''connect'')
   \<and> writeDriver (fst (snd (ReplicaRouter_connect (PostgresDriver net_r2_down) driver_factory
         (fresh_router RoundRobin) empty_world))) = Some 0
   \<and> readDrivers (fst (snd (ReplicaRouter_connect (PostgresDriver net_r2_down) driver_factory
         (fresh_router RoundRobin) empty_world))) = [1]
   \<and> isConnected (PostgresDriver net_r2_down) (heap (snd (snd (ReplicaRouter_connect
         (PostgresDriver net_r2_down) driver_factory (fresh_router RoundRobin) empty_world))) 0)
   \<and> isConnected (PostgresDriver net_r2_down) (heap (snd (snd (ReplicaRouter_connect
         (PostgresDriver net_r2_down) driver_factory (fresh_router RoundRobin) empty_world))) 1)
   \<and> calls (snd (snd (ReplicaRouter_connect (PostgresDriver net_r2_down) driver_factory
         (fresh_router RoundRobin) empty_world))) = [(0, Connect), (1, Connect), (2, Connect)]"
proof -
  let ?rg = "\<lparr>metadata = postgresMetadata, constructor = Driver_new Postgres\<rparr>"
  let ?r1 = "\<lparr>rhost = ''r1'', rport = 5432, weight = None\<rparr>"
  let ?r2 = "\<lparr>rhost = ''r2'', rport = 5432, weight = None\<rparr>"
  let ?r3 = "\<lparr>rhost = ''r3'', rport = 5432, weight = None\<rparr>"
  have h1: "map_of driver_factory (ctype (baseConfig (fresh_router RoundRobin))) = Some ?rg"
    by (simp add: fixture_defs router_fixture_defs)
  have h2: "fst (connect (PostgresDriver net_r2_down) (constructor ?rg
              (withEndpoint (baseConfig (fresh_router RoundRobin)) (writeHost (rconfig (fresh_router RoundRobin)))
                 (writePort (rconfig (fresh_router RoundRobin))))
              (rpassword (fresh_router RoundRobin)))) = None"
    by (simp add: fixture_defs router_fixture_defs postgres_defs)
  have h3: "readHosts (rconfig (fresh_router RoundRobin)) = [?r1] @ ?r2 # [?r3]"
    by (simp add: router_fixture_defs)
  have h4: "list_all (\<lambda>h'. fst (connect (PostgresDriver net_r2_down) (constructor ?rg
              (withEndpoint (baseConfig (fresh_router RoundRobin)) (rhost h') (rport h'))
              (rpassword (fresh_router RoundRobin)))) = None) [?r1]"
    by (simp add: fixture_defs router_fixture_defs postgres_defs)
  have h5: "fst (connect (PostgresDriver net_r2_down) (constructor ?rg
              (withEndpoint (baseConfig (fresh_router RoundRobin)) (rhost ?r2) (rport ?r2))
              (rpassword (fresh_router RoundRobin)))) = Some (BackendError ''connect'')"
    by (simp add: fixture_defs router_fixture_defs postgres_defs)
  have w0: "fresh empty_world = 0" "calls empty_world = []"
    by (simp_all add: empty_world_def)
  note t = ReplicaRouter_connect_not_atomic [OF h1 h2 h3 h4 h5, where w=empty_world]
  obtain res rt' w' where r:
    "ReplicaRouter_connect (PostgresDriver net_r2_down) driver_factory (fresh_router RoundRobin) empty_world
       = (res, rt', w')"
    by (cases "ReplicaRouter_connect (PostgresDriver net_r2_down) driver_factory (fresh_router RoundRobin) empty_world")
  have rd0: "readDrivers (fresh_router RoundRobin) = []"
    by (simp add: router_fixture_defs)
  have u: "[0..<Suc (Suc (Suc 0))] = [0, Suc 0, Suc (Suc 0)]"
    by (simp add: upt_rec)
  have k1: "isConnected (PostgresDriver net_r2_down) (snd (connect (PostgresDriver net_r2_down)
              (Driver_new Postgres (withEndpoint (baseConfig (fresh_router RoundRobin))
                 (writeHost (rconfig (fresh_router RoundRobin))) (writePort (rconfig (fresh_router RoundRobin))))
              (rpassword (fresh_router RoundRobin)))))"
    by (simp add: fixture_defs router_fixture_defs postgres_defs)
  have k2: "isConnected (PostgresDriver net_r2_down) (snd (connect (PostgresDriver net_r2_down)
              (Driver_new Postgres (withEndpoint (baseConfig (fresh_router RoundRobin)) ''r1'' 5432)
              (rpassword (fresh_router RoundRobin)))))"
    by (simp add: fixture_defs router_fixture_defs postgres_defs)
  from t r postgres_connect_contract[of net_r2_down] k1 k2
  have "res = Some (BackendError ''connect'') \<and> writeDriver rt' = Some 0
        \<and> readDrivers rt' = [1]
        \<and> isConnected (PostgresDriver net_r2_down) (heap w' 0)
        \<and> isConnected (PostgresDriver net_r2_down) (heap w' 1)
        \<and> calls w' = [(0, Connect), (1, Connect), (2, Connect)]"
    by (simp add: w0 rd0 u del: upt_Suc) (simp add: numeral_2_eq_2)
  then show ?thesis using r by simp
qed

text \<open>
  The fallback of \<open>getReadDriver\<close> on a state: with a write driver present and
  every read driver reporting disconnected (or none held), the write driver is
  returned under each strategy when the round-robin cursor, and the random index, lie
  within the list.
\<close>

lemma find_none_disconnected:
  "list_all (\<lambda>d. \<not> P d) xs \<Longrightarrow> find P xs = None"
  by (induction xs) auto

lemma getReadDriver_fallback_in_range:
  assumes "writeDriver rt = Some wd"
      and "list_all (\<lambda>d. \<not> isConnected ops (heap w d)) (readDrivers rt)"
      and "loadBalancing (rconfig rt) = RoundRobin \<longrightarrow>
             readDrivers rt = [] \<or> currentReadIndex rt < length (readDrivers rt)"
      and "loadBalancing (rconfig rt) = Random \<longrightarrow>
             readDrivers rt = [] \<or> rnd < length (readDrivers rt)"
  shows "fst (getReadDriver ops rnd rt w) = Inr wd"
proof (cases "readDrivers rt = []")
  case True
  then show ?thesis using assms(1) by (simp add: getReadDriver_def getWriteDriver_def)
next
  case False
  then have pos: "0 < length (readDrivers rt)" by simp
  have dis: "\<And>i. i < length (readDrivers rt) \<Longrightarrow> \<not> isConnected ops (heap w (readDrivers rt ! i))"
    using assms(2) by (simp add: list_all_length)
  have fn: "find (\<lambda>d. isConnected ops (heap w d)) (readDrivers rt) = None"
    using assms(2) by (rule find_none_disconnected)
  show ?thesis
    using False pos assms(1,3,4) dis fn
    by (cases "loadBalancing (rconfig rt)")
       (auto simp: getReadDriver_def getWriteDriver_def at_index_def)
qed

lemma connect_reads_cursor:
  "currentReadIndex (fst (snd (connect_reads ops factory hs rt w))) = currentReadIndex rt"
  by (induction hs arbitrary: rt w) (auto split: sum.splits prod.splits option.splits)

lemma ReplicaRouter_connect_cursor:
  "currentReadIndex (fst (snd (ReplicaRouter_connect ops factory rt w))) = currentReadIndex rt"
  by (auto simp: ReplicaRouter_connect_def connect_reads_cursor
      split: sum.splits prod.splits option.splits)

lemma getReadDriver_cursor:
  assumes "currentReadIndex rt = 0 \<or> currentReadIndex rt < length (readDrivers rt)"
  shows "currentReadIndex (snd (getReadDriver ops rnd rt w)) = 0
         \<or> currentReadIndex (snd (getReadDriver ops rnd rt w))
              < length (readDrivers (snd (getReadDriver ops rnd rt w)))"
  using assms
  by (cases "loadBalancing (rconfig rt)")
     (auto simp: getReadDriver_def split: option.splits prod.splits)

lemma after_reads_cursor:
  "currentReadIndex rt = 0 \<or> currentReadIndex rt < length (readDrivers rt) \<Longrightarrow>
   currentReadIndex (after_reads ops reads rt) = 0
   \<or> currentReadIndex (after_reads ops reads rt) < length (readDrivers (after_reads ops reads rt))"
proof (induction reads arbitrary: rt)
  case Nil
  then show ?case by simp
next
  case (Cons c reads)
  obtain rnd w where c: "c = (rnd, w)" by (cases c)
  show ?case
    unfolding c after_reads.simps
    by (rule Cons.IH) (rule getReadDriver_cursor[OF Cons.prems])
qed

text \<open>
  C6. Take a router as its constructor made it, connected once (whatever the outcome
  of that \<open>connect\<close>, by any driver implementation) and then used for any number of
  reads. If its write driver is present and its read-driver list is empty or holds
  only drivers that report disconnected, \<open>getReadDriver\<close> returns the write driver,
  under every load-balancing strategy, and so does not fail the caller. For the
  random strategy \<open>rnd\<close> is the index \<^verbatim>\<open>Math.floor(Math.random() * length)\<close>, which
  is below the length.
\<close>

theorem getReadDriver_falls_back_on_connected_router:
  assumes "ReplicaRouter_connect ops0 factory (ReplicaRouter_new cfg base pw) w0 = (res, rt0, w1)"
      and "rt = after_reads ops reads rt0"
      and "writeDriver rt = Some wd"
      and "readDrivers rt = [] \<or> list_all (\<lambda>d. \<not> isConnected ops (heap w d)) (readDrivers rt)"
      and "loadBalancing (rconfig rt) = Random \<longrightarrow>
             readDrivers rt = [] \<or> rnd < length (readDrivers rt)"
  shows "fst (getReadDriver ops rnd rt w) = Inr wd"
proof -
  have c0: "currentReadIndex rt0 = 0"
    using ReplicaRouter_connect_cursor[of ops0 factory "ReplicaRouter_new cfg base pw" w0] assms(1)
    by (simp add: ReplicaRouter_new_def)
  have cur: "currentReadIndex rt = 0 \<or> currentReadIndex rt < length (readDrivers rt)"
    unfolding assms(2) using c0 by (intro after_reads_cursor) simp
  have dis: "list_all (\<lambda>d. \<not> isConnected ops (heap w d)) (readDrivers rt)"
    using assms(4) by auto
  have rr: "loadBalancing (rconfig rt) = RoundRobin \<longrightarrow>
              readDrivers rt = [] \<or> currentReadIndex rt < length (readDrivers rt)"
    using cur by (cases "readDrivers rt") auto
  show ?thesis
    by (rule getReadDriver_fallback_in_range[OF assms(3) dis rr assms(5)])
qed

theorem getReadDriver_falls_back_on_connected_router_witness:
  "fst partial_run = Some (BackendError ''connect'')
   \<and> writeDriver (fst (snd partial_run)) = Some 0
   \<and> readDrivers (fst (snd partial_run)) = []
   \<and> fst (getReadDriver (PostgresDriver net_r1_down) 0 (fst (snd partial_run)) (snd (snd partial_run)))
       = Inr 0
   \<and> writeDriver read_twice = Some 0
   \<and> readDrivers read_twice = [1, 2, 3]
   \<and> currentReadIndex read_twice = 2
   \<and> list_all (\<lambda>d. \<not> isConnected (PostgresDriver net_up) (heap reads_closed d)) (readDrivers read_twice)
   \<and> fst (getReadDriver (PostgresDriver net_up) 0 read_twice reads_closed) = Inr 0"
proof -
  have p: "fst partial_run = Some (BackendError ''connect'')"
          "writeDriver (fst (snd partial_run)) = Some 0"
          "readDrivers (fst (snd partial_run)) = []"
    by (simp_all add: partial_run_def run_defs fixture_defs router_fixture_defs postgres_defs)
  have pr: "ReplicaRouter_connect (PostgresDriver net_r1_down) driver_factory
              (ReplicaRouter_new (three_replicas RoundRobin) (postgres_config ''c1'' ''primary'') ''pw'')
              empty_world = (fst partial_run, fst (snd partial_run), snd (snd partial_run))"
    by (simp add: partial_run_def fresh_router_def)
  have pa: "fst (snd partial_run) = after_reads (PostgresDriver net_r1_down) [] (fst (snd partial_run))"
    by simp
  have a: "fst (getReadDriver (PostgresDriver net_r1_down) 0 (fst (snd partial_run))
             (snd (snd partial_run))) = Inr 0"
    by (rule getReadDriver_falls_back_on_connected_router[OF pr pa p(2)]) (simp_all add: p(3))
  have f: "writeDriver read_twice = Some 0"
          "readDrivers read_twice = [1, 2, 3]"
          "currentReadIndex read_twice = 2"
    by (simp_all add: read_twice_def full_run_def run_defs fixture_defs router_fixture_defs
          postgres_defs)
  have c: "list_all (\<lambda>d. \<not> isConnected (PostgresDriver net_up) (heap reads_closed d))
             (readDrivers read_twice)"
    unfolding f(2)
    by (simp add: reads_closed_def full_run_def run_defs fixture_defs router_fixture_defs
          postgres_defs)
  have fr: "ReplicaRouter_connect (PostgresDriver net_up) driver_factory
              (ReplicaRouter_new (three_replicas RoundRobin) (postgres_config ''c1'' ''primary'') ''pw'')
              empty_world = (fst full_run, fst (snd full_run), snd (snd full_run))"
    by (simp add: full_run_def fresh_router_def)
  have h4: "readDrivers read_twice = []
            \<or> list_all (\<lambda>d. \<not> isConnected (PostgresDriver net_up) (heap reads_closed d))
                 (readDrivers read_twice)"
    using c by blast
  have h5: "loadBalancing (rconfig read_twice) = Random \<longrightarrow>
              readDrivers read_twice = [] \<or> 0 < length (readDrivers read_twice)"
    by (simp add: f(2))
  have b: "fst (getReadDriver (PostgresDriver net_up) 0 read_twice reads_closed) = Inr 0"
    by (rule getReadDriver_falls_back_on_connected_router [OF fr read_twice_def f(1) h4 h5])
  from p a f c b show ?thesis by blast
qed

end
